theory Spec2Isabelle
  imports Main "HOL-Library.AList"
begin

section \<open>JavaScript completions\<close>

text \<open>
  The server module is JavaScript. An expression either returns a value or throws; the
  model keeps both as values.
\<close>

datatype js_error = ReferenceError string | TypeError string | SystemError string

datatype 'a outcome = Returns 'a | Throws js_error

section \<open>String helpers of the module\<close>

text \<open>\<^verbatim>\<open>pathname.startsWith(prefix)\<close>.\<close>

definition startsWith :: "string \<Rightarrow> string \<Rightarrow> bool" where
  "startsWith s pre = (take (length pre) s = pre)"

text \<open>\<^verbatim>\<open>pathname.replace(/^\//, '')\<close>: at most one leading slash goes.\<close>

definition strip_one_slash :: "string \<Rightarrow> string" where
  "strip_one_slash s = (case s of [] \<Rightarrow> [] | c # cs \<Rightarrow> if c = CHR ''/'' then cs else s)"

text \<open>\<^verbatim>\<open>s.replace(/^\/+/, '')\<close>: every leading slash goes.\<close>

definition strip_slashes :: "string \<Rightarrow> string" where
  "strip_slashes s = dropWhile (\<lambda>c. c = CHR ''/'') s"

section \<open>The POSIX path functions of node:path\<close>

text \<open>
  \<^verbatim>\<open>normalize\<close>, \<^verbatim>\<open>join\<close>, \<^verbatim>\<open>resolve\<close> and \<^verbatim>\<open>extname\<close> are imported from
  \<^verbatim>\<open>node:path\<close> (line 4 of the server module). They are modelled on path segments, for
  the POSIX flavour the container image runs: the library's \<^verbatim>\<open>normalizeString\<close> walks the
  characters and cuts a segment at every slash, which is \<open>split_slash\<close> followed by a
  fold of \<open>normalize_step\<close> over the segments.
\<close>

text \<open>\<^verbatim>\<open>s.split('/')\<close>: the pieces between slashes, never an empty list.\<close>

fun split_slash :: "string \<Rightarrow> string list" where
  "split_slash [] = [[]]"
| "split_slash (c # cs) =
     (if c = CHR ''/'' then [] # split_slash cs
      else (case split_slash cs of [] \<Rightarrow> [[c]] | s # ss \<Rightarrow> (c # s) # ss))"

text \<open>\<^verbatim>\<open>segs.join('/')\<close>.\<close>

fun join_slash :: "string list \<Rightarrow> string" where
  "join_slash [] = []"
| "join_slash [s] = s"
| "join_slash (s # t # ss) = s @ CHR ''/'' # join_slash (t # ss)"

text \<open>
  One segment of \<^verbatim>\<open>normalizeString\<close>: an empty segment and \<^verbatim>\<open>.\<close> are skipped; \<^verbatim>\<open>..\<close>
  removes the last kept segment unless there is none or it is \<^verbatim>\<open>..\<close> itself, in which
  case it is kept only when the path may climb above its start; any other segment is
  appended.
\<close>

definition normalize_step :: "bool \<Rightarrow> string list \<Rightarrow> string \<Rightarrow> string list" where
  "normalize_step allowAboveRoot res seg =
     (if seg = [] \<or> seg = ''.'' then res
      else if seg = ''..'' then
        (if res \<noteq> [] \<and> last res \<noteq> ''..'' then butlast res
         else if allowAboveRoot then res @ [''..''] else res)
      else res @ [seg])"

definition normalized_segments :: "bool \<Rightarrow> string \<Rightarrow> string list" where
  "normalized_segments allowAboveRoot path =
     foldl (normalize_step allowAboveRoot) [] (split_slash path)"

definition normalizeString :: "string \<Rightarrow> bool \<Rightarrow> string" where
  "normalizeString path allowAboveRoot = join_slash (normalized_segments allowAboveRoot path)"

text \<open>\<^verbatim>\<open>path.posix.normalize\<close>.\<close>

definition normalize_path :: "string \<Rightarrow> string" where
  "normalize_path path =
     (if path = [] then ''.''
      else
        (let isAbsolute = (hd path = CHR ''/'');
             trailingSeparator = (last path = CHR ''/'');
             p = normalizeString path (\<not> isAbsolute)
         in if p = [] then
              (if isAbsolute then ''/'' else if trailingSeparator then ''./'' else ''.'')
            else
              (let p' = (if trailingSeparator then p @ ''/'' else p)
               in if isAbsolute then CHR ''/'' # p' else p')))"

text \<open>\<^verbatim>\<open>path.posix.join\<close>: the non-empty arguments, glued with slashes, normalized.\<close>

definition join_path :: "string list \<Rightarrow> string" where
  "join_path args =
     (let parts = filter (\<lambda>a. a \<noteq> []) args
      in if parts = [] then ''.'' else normalize_path (join_slash parts))"

text \<open>
  \<^verbatim>\<open>path.posix.resolve\<close>: the arguments are taken from the right, then the working
  directory, until an absolute one is met.
\<close>

fun resolve_prefix :: "string list \<Rightarrow> string \<Rightarrow> string \<times> bool" where
  "resolve_prefix [] resolvedPath = (resolvedPath, False)"
| "resolve_prefix (p # ps) resolvedPath =
     (if p = [] then resolve_prefix ps resolvedPath
      else if hd p = CHR ''/'' then (p @ CHR ''/'' # resolvedPath, True)
      else resolve_prefix ps (p @ CHR ''/'' # resolvedPath))"

definition resolve_path :: "string \<Rightarrow> string list \<Rightarrow> string" where
  "resolve_path cwd args =
     (case resolve_prefix (rev args @ [cwd]) [] of
        (resolvedPath, resolvedAbsolute) \<Rightarrow>
          (let n = normalizeString resolvedPath (\<not> resolvedAbsolute)
           in if resolvedAbsolute then CHR ''/'' # n
              else if n \<noteq> [] then n else ''.''))"

text \<open>
  \<^verbatim>\<open>path.posix.extname\<close>: within the last non-empty segment, the text from the last dot
  on; empty when there is no dot, when the only dot leads the segment, or when the segment
  is \<^verbatim>\<open>..\<close>.
\<close>

definition basename_segment :: "string \<Rightarrow> string" where
  "basename_segment path =
     (case filter (\<lambda>s. s \<noteq> []) (split_slash path) of [] \<Rightarrow> [] | s # ss \<Rightarrow> last (s # ss))"

definition extname :: "string \<Rightarrow> string" where
  "extname path =
     (let b = basename_segment path;
          ext = CHR ''.'' # rev (takeWhile (\<lambda>c. c \<noteq> CHR ''.'') (rev b))
      in if CHR ''.'' \<notin> set b then []
         else if length ext = length b then []
         else if b = ''..'' then []
         else ext)"

section \<open>Paths below a directory\<close>

text \<open>
  A segment that normalization keeps as it is: not empty, neither \<^verbatim>\<open>.\<close> nor \<^verbatim>\<open>..\<close>,
  and free of slashes.
\<close>

definition clean_segment :: "string \<Rightarrow> bool" where
  "clean_segment s = (s \<noteq> [] \<and> s \<noteq> ''.'' \<and> s \<noteq> ''..'' \<and> CHR ''/'' \<notin> set s)"

text \<open>The segments of a path that name something: the empty ones and \<^verbatim>\<open>.\<close> name nothing.\<close>

definition path_segments :: "string \<Rightarrow> string list" where
  "path_segments p = filter (\<lambda>s. s \<noteq> [] \<and> s \<noteq> ''.'') (split_slash p)"

text \<open>
  \<open>p\<close> is a descendant of the directory \<open>root\<close>, read off the text of the path: \<open>p\<close> is
  \<open>root\<close>, a slash, and a remainder that names at least one segment and never steps
  back with \<^verbatim>\<open>..\<close>.
\<close>

definition descendant_of :: "string \<Rightarrow> string \<Rightarrow> bool" where
  "descendant_of root p =
     (let n = length root + 1; rel = drop n p
      in take n p = root @ ''/'' \<and> path_segments rel \<noteq> []
         \<and> ''..'' \<notin> set (path_segments rel))"

section \<open>The filesystem boundary\<close>

text \<open>
  The module reads the filesystem through \<^verbatim>\<open>stat\<close> (metadata of a path, or a thrown
  system error for a missing path or a denied permission) and \<^verbatim>\<open>createReadStream\<close>
  (the bytes a read delivers, and the error that cut the read short, if any). Both only
  read: they hand the filesystem back as they found it.
\<close>

record stats =
  isFile :: bool

record filesystem =
  stat_of :: "string \<Rightarrow> stats outcome"
  stream_of :: "string \<Rightarrow> string \<times> js_error option"

definition stat :: "string \<Rightarrow> filesystem \<Rightarrow> stats outcome \<times> filesystem" where
  "stat path fs = (stat_of fs path, fs)"

section \<open>Module constants\<close>

text \<open>Line 9: \<^verbatim>\<open>const clientDir = resolve('dist/client')\<close>, for the working directory \<open>cwd\<close>.\<close>

definition clientDir :: "string \<Rightarrow> string" where
  "clientDir cwd = resolve_path cwd [''dist/client'']"

definition staticFiles :: "string list" where
  "staticFiles =
     [''favicon.ico'', ''manifest.json'', ''robots.txt'', ''logo192.png'', ''logo512.png'',
      ''tanstack-circle-logo.png'', ''tanstack-word-logo-white.svg'']"

definition mimeMap :: "(string \<times> string) list" where
  "mimeMap =
     [(''.html'', ''text/html''),
      (''.js'', ''application/javascript''),
      (''.css'', ''text/css''),
      (''.json'', ''application/json''),
      (''.ico'', ''image/x-icon''),
      (''.png'', ''image/png''),
      (''.svg'', ''image/svg+xml''),
      (''.txt'', ''text/plain''),
      (''.woff2'', ''font/woff2''),
      (''.webp'', ''image/webp''),
      (''.avif'', ''image/avif'')]"

section \<open>The static resolver\<close>

text \<open>
  \<^verbatim>\<open>safeJoin\<close> (lines 95 to 107); \<open>safeJoin_fsPath\<close> is its lines 96 and 97. The
  \<^verbatim>\<open>catch\<close> turns every error of \<^verbatim>\<open>stat\<close> into \<^verbatim>\<open>null\<close>; a path that is there but
  is no regular file falls through to the last \<^verbatim>\<open>return null\<close>.
\<close>

definition safeJoin_fsPath :: "string \<Rightarrow> string \<Rightarrow> string" where
  "safeJoin_fsPath root pathname =
     (let normalized = strip_slashes (normalize_path pathname)
      in join_path [root, normalized])"

definition safeJoin :: "string \<Rightarrow> string \<Rightarrow> filesystem \<Rightarrow> string option outcome \<times> filesystem" where
  "safeJoin root pathname fs =
     (let fsPath = safeJoin_fsPath root pathname
      in case stat fsPath fs of
           (Throws e, fs') \<Rightarrow> (Returns None, fs')
         | (Returns fileStat, fs') \<Rightarrow>
             if isFile fileStat then (Returns (Some fsPath), fs') else (Returns None, fs'))"

text \<open>\<^verbatim>\<open>resolveStatic\<close> (lines 82 to 93), with \<^verbatim>\<open>clientDir\<close> passed in.\<close>

definition resolveStatic :: "string \<Rightarrow> string \<Rightarrow> filesystem \<Rightarrow> string option outcome \<times> filesystem" where
  "resolveStatic root pathname fs =
     (if startsWith pathname ''/assets/'' then safeJoin root pathname fs
      else
        (let trimmed = strip_one_slash pathname
         in if trimmed \<in> set staticFiles then safeJoin root pathname fs
            else (Returns None, fs)))"

text \<open>
  The same function with the mutable object it reaches made explicit. \<^verbatim>\<open>staticFiles\<close> is
  a \<^verbatim>\<open>Set\<close>, whose entries a call could change; \<^verbatim>\<open>clientDir\<close> is a constant bound to
  a string and cannot change. A call takes the objects of the module and the filesystem and
  hands both back: lines 82 to 93 only read the set, with \<^verbatim>\<open>has\<close>.
\<close>

record module_objects =
  staticFiles_entries :: "string list"

definition module_at_start :: module_objects where
  "module_at_start = \<lparr>staticFiles_entries = staticFiles\<rparr>"

definition resolveStatic_call ::
  "string \<Rightarrow> string \<Rightarrow> module_objects \<times> filesystem
     \<Rightarrow> string option outcome \<times> module_objects \<times> filesystem" where
  "resolveStatic_call root pathname state =
     (case state of (objects, fs) \<Rightarrow>
        if startsWith pathname ''/assets/'' then
          (case safeJoin root pathname fs of (result, fs') \<Rightarrow> (result, objects, fs'))
        else
          (let trimmed = strip_one_slash pathname
           in if trimmed \<in> set (staticFiles_entries objects) then
                (case safeJoin root pathname fs of (result, fs') \<Rightarrow> (result, objects, fs'))
              else (Returns None, objects, fs)))"

section \<open>Requests, responses and the runtime\<close>

text \<open>
  What the request callback reads of \<^verbatim>\<open>req\<close>: \<^verbatim>\<open>req.url\<close> (possibly undefined),
  \<^verbatim>\<open>req.method\<close>, \<^verbatim>\<open>req.headers\<close> (the transport lower-cases the names) and the bytes
  of the request body.
\<close>

record incoming_message =
  in_url :: "string option"
  in_method :: string
  in_headers :: "(string \<times> string) list"
  in_body :: string

record parsed_url =
  pathname :: string
  href :: string

text \<open>The protocol-neutral \<^verbatim>\<open>Request\<close> and \<^verbatim>\<open>Response\<close> of the handler contract.\<close>

record web_request =
  rq_url :: string
  rq_method :: string
  rq_headers :: "(string \<times> string) list"
  rq_body :: "string option"

record web_response =
  resp_status :: nat
  resp_headers :: "(string \<times> string) list"
  resp_body :: "(string \<times> js_error option) option"

text \<open>
  What the module takes from its surroundings: the working directory, the \<^verbatim>\<open>URL\<close> and
  \<^verbatim>\<open>Request\<close> constructors of the platform (each may throw), and the function that lines
  11 and 12 bind to \<^verbatim>\<open>handlerFetch\<close>.
\<close>

record runtime =
  cwd :: string
  new_URL :: "string \<Rightarrow> string \<Rightarrow> parsed_url outcome"
  request_rejected :: "web_request \<Rightarrow> js_error option"
  handlerFetch :: "web_request \<Rightarrow> web_response outcome"

definition new_Request :: "runtime \<Rightarrow> web_request \<Rightarrow> web_request outcome" where
  "new_Request rt init = (case request_rejected rt init of Some e \<Rightarrow> Throws e | None \<Rightarrow> Returns init)"

text \<open>
  One request as an observer sees it: the state of \<^verbatim>\<open>res\<close> (status, headers by
  lower-cased name, whether the head has gone out, the body bytes written, the calls of
  \<^verbatim>\<open>res.end\<close>), the entries of \<^verbatim>\<open>console.error\<close>, the calls made to the external
  handler, and stream errors nobody listens for.
\<close>

record exchange =
  statusCode :: nat
  headers :: "(string \<times> string) list"
  headersSent :: bool
  written :: string
  endCalls :: nat
  errorLog :: "js_error list"
  handlerCalls :: "web_request list"
  uncaught :: "js_error list"

definition fresh_exchange :: exchange where
  "fresh_exchange =
     \<lparr>statusCode = 200, headers = [], headersSent = False, written = [], endCalls = 0,
      errorLog = [], handlerCalls = [], uncaught = []\<rparr>"

definition lower_char :: "char \<Rightarrow> char" where
  "lower_char c =
     (case map_of (zip ''ABCDEFGHIJKLMNOPQRSTUVWXYZ'' ''abcdefghijklmnopqrstuvwxyz'') c of
        None \<Rightarrow> c | Some l \<Rightarrow> l)"

definition toLowerCase :: "string \<Rightarrow> string" where
  "toLowerCase s = map lower_char s"

text \<open>\<^verbatim>\<open>res.setHeader\<close>: one value per header name, names compared without case.\<close>

definition setHeader :: "string \<Rightarrow> string \<Rightarrow> exchange \<Rightarrow> exchange" where
  "setHeader name v x = x\<lparr>headers := AList.update (toLowerCase name) v (headers x)\<rparr>"

text \<open>A chunk piped into \<^verbatim>\<open>res\<close>: the first one sends the head.\<close>

definition write_chunk :: "string \<Rightarrow> exchange \<Rightarrow> exchange" where
  "write_chunk chunk x =
     (if chunk = [] \<or> 0 < endCalls x then x
      else x\<lparr>written := written x @ chunk, headersSent := True\<rparr>)"

text \<open>\<^verbatim>\<open>res.end(data)\<close>: writes the last chunk and closes; a later call writes nothing.\<close>

definition end_response :: "string \<Rightarrow> exchange \<Rightarrow> exchange" where
  "end_response chunk x =
     (if 0 < endCalls x then x\<lparr>endCalls := Suc (endCalls x)\<rparr>
      else x\<lparr>written := written x @ chunk, headersSent := True, endCalls := 1\<rparr>)"

definition console_error :: "js_error \<Rightarrow> exchange \<Rightarrow> exchange" where
  "console_error e x = x\<lparr>errorLog := errorLog x @ [e]\<rparr>"

section \<open>The request dispatcher\<close>

text \<open>\<^verbatim>\<open>handleError\<close> (lines 109 to 116).\<close>

definition handleError :: "js_error \<Rightarrow> exchange \<Rightarrow> exchange" where
  "handleError error x =
     (let x1 = console_error error x;
          x2 = (if \<not> headersSent x1
                then setHeader ''Content-Type'' ''text/plain'' (x1\<lparr>statusCode := 500\<rparr>)
                else x1)
      in end_response ''Internal Server Error'' x2)"

text \<open>
  \<^verbatim>\<open>readable.pipe(res)\<close>, run to its end: the delivered bytes are written, then either
  the readable ends and \<^verbatim>\<open>res.end()\<close> follows, or it emits an error, which goes to the
  listener and leaves \<^verbatim>\<open>res\<close> open.
\<close>

definition pipe_stream ::
  "(js_error \<Rightarrow> exchange \<Rightarrow> exchange) \<Rightarrow> string \<times> js_error option \<Rightarrow> exchange \<Rightarrow> exchange" where
  "pipe_stream on_error stream x =
     (case stream of (delivered, failure) \<Rightarrow>
        (let x1 = write_chunk delivered x
         in case failure of None \<Rightarrow> end_response [] x1 | Some err \<Rightarrow> on_error err x1))"

text \<open>Lines 49 to 55: the static branch.\<close>

definition serve_static :: "filesystem \<Rightarrow> string \<Rightarrow> exchange \<Rightarrow> exchange" where
  "serve_static fs staticPath x =
     (let x1 = x\<lparr>statusCode := 200\<rparr>;
          x2 = setHeader ''Content-Type''
                 (case map_of mimeMap (extname staticPath) of
                    None \<Rightarrow> ''application/octet-stream'' | Some t \<Rightarrow> t) x1;
          x3 = setHeader ''Cache-Control'' ''public, max-age=31536000, immutable'' x2
      in pipe_stream handleError (stream_of fs staticPath) x3)"

text \<open>
  The names bound where line 65 runs: the imports and declarations of the module, the
  parameters and constants of the callback declared above that line, and the platform
  globals the module uses. There is a \<^verbatim>\<open>handlerObj\<close> and a \<^verbatim>\<open>handlerFetch\<close>; there is
  no \<^verbatim>\<open>handler\<close>.
\<close>

definition scope_at_delegation :: "string list" where
  "scope_at_delegation =
     [''createServer'', ''createReadStream'', ''stat'', ''extname'', ''join'', ''normalize'',
      ''resolve'', ''Readable'', ''handlerModule'', ''port'', ''clientDir'', ''handlerObj'',
      ''handlerFetch'', ''staticFiles'', ''mimeMap'', ''resolveStatic'', ''safeJoin'',
      ''handleError'', ''req'', ''res'', ''url'', ''staticPath'', ''body'', ''request'',
      ''URL'', ''Request'', ''console'', ''process'']"

text \<open>Evaluating an identifier: an unbound one throws a \<^verbatim>\<open>ReferenceError\<close>.\<close>

definition identifier_bound :: "string \<Rightarrow> unit outcome" where
  "identifier_bound name =
     (if name \<in> set scope_at_delegation then Returns () else Throws (ReferenceError name))"

text \<open>
  Line 65, \<^verbatim>\<open>await handler.fetch(request)\<close>: the identifier \<^verbatim>\<open>handler\<close> is evaluated
  first; only if that returns is the fetch function called.
\<close>

definition call_handler :: "runtime \<Rightarrow> web_request \<Rightarrow> exchange \<Rightarrow> web_response outcome \<times> exchange" where
  "call_handler rt request x =
     (case identifier_bound ''handler'' of
        Throws e \<Rightarrow> (Throws e, x)
      | Returns u \<Rightarrow> (handlerFetch rt request, x\<lparr>handlerCalls := handlerCalls x @ [request]\<rparr>))"

text \<open>Lines 66 to 74. The piped handler body has no error listener.\<close>

definition forward_response :: "web_response \<Rightarrow> exchange \<Rightarrow> exchange" where
  "forward_response response x =
     (let x1 = x\<lparr>statusCode := resp_status response\<rparr>;
          x2 = foldl (\<lambda>acc (key, v). setHeader key v acc) x1 (resp_headers response)
      in case resp_body response of
           None \<Rightarrow> end_response [] x2
         | Some stream \<Rightarrow>
             pipe_stream (\<lambda>err y. y\<lparr>uncaught := uncaught y @ [err]\<rparr>) stream x2)"

text \<open>Lines 58 to 74: the delegation branch; \<open>request_init\<close> is lines 58 to 63.\<close>

definition request_init :: "incoming_message \<Rightarrow> parsed_url \<Rightarrow> web_request" where
  "request_init req url =
     (let body = (if in_method req = ''GET'' \<or> in_method req = ''HEAD'' then None
                  else Some (in_body req))
      in \<lparr>rq_url = href url, rq_method = in_method req, rq_headers = in_headers req,
          rq_body = body\<rparr>)"

definition delegate :: "runtime \<Rightarrow> incoming_message \<Rightarrow> parsed_url \<Rightarrow> exchange \<Rightarrow> unit outcome \<times> exchange" where
  "delegate rt req url x =
     (case new_Request rt (request_init req url) of
        Throws e \<Rightarrow> (Throws e, x)
      | Returns request \<Rightarrow>
          (case call_handler rt request x of
             (Throws e, x') \<Rightarrow> (Throws e, x')
           | (Returns response, x') \<Rightarrow> (Returns (), forward_response response x')))"

text \<open>Lines 44 to 74: the body of the \<^verbatim>\<open>try\<close>; \<open>request_url\<close> is line 45.\<close>

definition request_url :: "runtime \<Rightarrow> incoming_message \<Rightarrow> parsed_url outcome" where
  "request_url rt req =
     new_URL rt (case in_url req of None \<Rightarrow> ''/'' | Some u \<Rightarrow> u)
       (''http://'' @ (case map_of (in_headers req) ''host'' of
                         None \<Rightarrow> ''localhost'' | Some h \<Rightarrow> h))"

definition try_block :: "runtime \<Rightarrow> filesystem \<Rightarrow> incoming_message \<Rightarrow> exchange \<Rightarrow> unit outcome \<times> exchange" where
  "try_block rt fs req x =
     (case request_url rt req of
        Throws e \<Rightarrow> (Throws e, x)
      | Returns url \<Rightarrow>
          (case resolveStatic (clientDir (cwd rt)) (pathname url) fs of
             (Throws e, fs') \<Rightarrow> (Throws e, x)
           | (Returns None, fs') \<Rightarrow> delegate rt req url x
           | (Returns (Some staticPath), fs') \<Rightarrow>
               if staticPath \<noteq> [] then (Returns (), serve_static fs' staticPath x)
               else delegate rt req url x))"

text \<open>Lines 43 to 78: the request callback, from a fresh \<^verbatim>\<open>res\<close>.\<close>

definition dispatch :: "runtime \<Rightarrow> filesystem \<Rightarrow> incoming_message \<Rightarrow> exchange" where
  "dispatch rt fs req =
     (case try_block rt fs req fresh_exchange of
        (Returns u, x) \<Rightarrow> x
      | (Throws error, x) \<Rightarrow> handleError error x)"

section \<open>A concrete deployment\<close>

text \<open>
  The container image runs the module in \<^verbatim>\<open>/app\<close>. The example filesystem holds the
  client directory, three regular files under it, and one file whose read breaks after
  five bytes; every other path is missing.
\<close>

definition example_fs :: filesystem where
  "example_fs =
     \<lparr>stat_of = (\<lambda>p.
        if p = ''/app/dist/client/index.html'' \<or> p = ''/app/dist/client/assets/app.js''
           \<or> p = ''/app/dist/client/assets/APP.JS'' \<or> p = ''/app/dist/client/assets/style.css''
        then Returns \<lparr>isFile = True\<rparr>
        else if p = ''/app/dist/client'' \<or> p = ''/app/dist/client/assets''
        then Returns \<lparr>isFile = False\<rparr>
        else Throws (SystemError ''ENOENT'')),
      stream_of = (\<lambda>p.
        if p = ''/app/dist/client/assets/style.css'' then (''body{'', Some (SystemError ''EIO''))
        else (''console.log(1)'', None))\<rparr>"

text \<open>
  A runtime whose \<^verbatim>\<open>URL\<close> constructor takes the request target as the path, whose
  \<^verbatim>\<open>Request\<close> constructor accepts everything, and whose configured handler answers 404.
\<close>

definition example_runtime :: runtime where
  "example_runtime =
     \<lparr>cwd = ''/app'',
      new_URL = (\<lambda>target base. Returns \<lparr>pathname = target, href = base @ target\<rparr>),
      request_rejected = (\<lambda>init. None),
      handlerFetch = (\<lambda>request.
        Returns \<lparr>resp_status = 404, resp_headers = [(''content-type'', ''text/html'')],
                 resp_body = Some (''not found'', None)\<rparr>)\<rparr>"

definition example_get :: "string \<Rightarrow> incoming_message" where
  "example_get target =
     \<lparr>in_url = Some target, in_method = ''GET'', in_headers = [(''host'', ''example.org'')],
      in_body = []\<rparr>"

text \<open>The example filesystem with every read failing at open: the files are there, unreadable.\<close>

definition unreadable_fs :: filesystem where
  "unreadable_fs = example_fs\<lparr>stream_of := (\<lambda>p. ([], Some (SystemError ''EACCES'')))\<rparr>"

section \<open>The content type as the specification words it\<close>

text \<open>
  The specification gives the content type as a lookup of the file's extension in a table
  it spells out, with \<^verbatim>\<open>application/octet-stream\<close> for every extension the table does not
  have. The three definitions below follow those words and not the module: the name of a
  file is the last stretch of its path without a slash, trailing slashes set aside; its
  extension is the end of the name from the last dot on, and a name without a dot, a name
  whose only dot comes first, and the name \<^verbatim>\<open>..\<close> have none; the table is written out
  entry by entry, keys compared as they are spelled.
\<close>

definition spec_file_name :: "string \<Rightarrow> string" where
  "spec_file_name path =
     rev (takeWhile (\<lambda>c. c \<noteq> CHR ''/'') (dropWhile (\<lambda>c. c = CHR ''/'') (rev path)))"

definition spec_extension :: "string \<Rightarrow> string" where
  "spec_extension path =
     (let name = spec_file_name path;
          after_dot = rev (takeWhile (\<lambda>c. c \<noteq> CHR ''.'') (rev name))
      in if CHR ''.'' \<notin> set name \<or> name = ''..'' \<or> length after_dot + 1 = length name
         then [] else CHR ''.'' # after_dot)"

definition spec_content_type :: "string \<Rightarrow> string" where
  "spec_content_type path =
     (let e = spec_extension path
      in if e = ''.html'' then ''text/html''
         else if e = ''.js'' then ''application/javascript''
         else if e = ''.css'' then ''text/css''
         else if e = ''.json'' then ''application/json''
         else if e = ''.ico'' then ''image/x-icon''
         else if e = ''.png'' then ''image/png''
         else if e = ''.svg'' then ''image/svg+xml''
         else if e = ''.txt'' then ''text/plain''
         else if e = ''.woff2'' then ''font/woff2''
         else if e = ''.webp'' then ''image/webp''
         else if e = ''.avif'' then ''image/avif''
         else ''application/octet-stream'')"

section \<open>Splitting and joining at slashes\<close>

lemma split_slash_not_Nil: "split_slash s \<noteq> []"
  by (induction s) (auto split: list.splits)

lemma split_slash_append: "split_slash (a @ CHR ''/'' # b) = split_slash a @ split_slash b"
  by (induction a) (auto split: list.splits simp add: split_slash_not_Nil)

lemma split_slash_no_slash: "CHR ''/'' \<notin> set s \<Longrightarrow> split_slash s = [s]"
  by (induction s) auto

lemma split_slash_pieces: "s \<in> set (split_slash p) \<Longrightarrow> CHR ''/'' \<notin> set s"
  by (induction p arbitrary: s) (auto split: list.splits if_splits simp add: split_slash_not_Nil)

lemma split_pieces_all: "list_all (\<lambda>s. CHR ''/'' \<notin> set s) (split_slash p)"
  by (simp add: list_all_iff split_slash_pieces)

lemma split_join_slash:
  "segs \<noteq> [] \<Longrightarrow> list_all (\<lambda>s. CHR ''/'' \<notin> set s) segs \<Longrightarrow> split_slash (join_slash segs) = segs"
proof (induction segs rule: join_slash.induct)
  case 1
  then show ?case by simp
next
  case (2 s)
  then show ?case by (simp add: split_slash_no_slash)
next
  case (3 s t ss)
  then show ?case by (simp add: split_slash_append split_slash_no_slash)
qed

lemma join_slash_append:
  "xs \<noteq> [] \<Longrightarrow> ys \<noteq> [] \<Longrightarrow> join_slash (xs @ ys) = join_slash xs @ CHR ''/'' # join_slash ys"
proof (induction xs rule: join_slash.induct)
  case 1
  then show ?case by simp
next
  case (2 s)
  then show ?case by (cases ys) simp_all
next
  case (3 s t ss)
  then show ?case by simp
qed

lemma clean_no_slash:
  "list_all clean_segment segs \<Longrightarrow> list_all (\<lambda>s. CHR ''/'' \<notin> set s) segs"
  by (simp add: list_all_iff clean_segment_def)

lemma join_slash_clean_hd:
  "segs \<noteq> [] \<Longrightarrow> list_all clean_segment segs \<Longrightarrow>
     join_slash segs \<noteq> [] \<and> hd (join_slash segs) \<noteq> CHR ''/''"
  by (cases segs rule: join_slash.cases)
    (auto simp add: clean_segment_def hd_append dest: hd_in_set)

lemma join_slash_clean_Nil:
  "list_all clean_segment segs \<Longrightarrow> (join_slash segs = []) = (segs = [])"
  using join_slash_clean_hd [of segs] by (cases "segs = []") auto

lemma join_slash_clean_last:
  "segs \<noteq> [] \<Longrightarrow> list_all clean_segment segs \<Longrightarrow> last (join_slash segs) \<noteq> CHR ''/''"
proof (induction segs rule: join_slash.induct)
  case 1
  then show ?case by simp
next
  case (2 s)
  then have "s \<noteq> []" "CHR ''/'' \<notin> set s" by (simp_all add: clean_segment_def)
  then show ?case using last_in_set by fastforce
next
  case (3 s t ss)
  then show ?case using join_slash_clean_hd [of "t # ss"] by simp
qed

lemma split_slash_rooted:
  assumes "list_all clean_segment segs" and "segs \<noteq> []"
  shows "split_slash (CHR ''/'' # join_slash segs) = [] # segs"
  using assms by (simp add: split_join_slash clean_no_slash)

section \<open>Normalization keeps clean segments and produces nothing else\<close>

lemma normalize_step_clean:
  "list_all clean_segment res \<Longrightarrow> CHR ''/'' \<notin> set seg \<Longrightarrow>
     list_all clean_segment (normalize_step False res seg)"
  by (auto simp add: normalize_step_def clean_segment_def list_all_iff dest: in_set_butlastD)

lemma normalize_fold_clean:
  "list_all clean_segment res \<Longrightarrow> list_all (\<lambda>s. CHR ''/'' \<notin> set s) segs \<Longrightarrow>
     list_all clean_segment (foldl (normalize_step False) res segs)"
  by (induction segs arbitrary: res) (simp_all add: normalize_step_clean)

lemma normalize_step_on_clean: "clean_segment seg \<Longrightarrow> normalize_step a res seg = res @ [seg]"
  by (simp add: normalize_step_def clean_segment_def)

lemma normalize_fold_on_clean:
  "list_all clean_segment segs \<Longrightarrow> foldl (normalize_step a) res segs = res @ segs"
  by (induction segs arbitrary: res) (simp_all add: normalize_step_on_clean)

lemma normalize_step_empty: "normalize_step a res [] = res"
  by (simp add: normalize_step_def)

lemma normalized_segments_clean: "list_all clean_segment (normalized_segments False p)"
  by (simp add: normalized_segments_def normalize_fold_clean split_pieces_all)

lemma normalize_path_nonempty: "normalize_path p \<noteq> []"
  by (simp add: normalize_path_def Let_def)

lemma join_path_nonempty: "join_path args \<noteq> []"
  by (simp add: join_path_def Let_def normalize_path_nonempty)

lemma normalize_path_absolute_form:
  assumes "q \<noteq> []" and "hd q = CHR ''/''" and "normalizeString q False = n" and "n \<noteq> []"
  shows "normalize_path q = CHR ''/'' # n @ (if last q = CHR ''/'' then ''/'' else [])"
  using assms by (simp add: normalize_path_def Let_def)

text \<open>
  An absolute path, normalized and stripped of its leading slashes, is a slash-joined list
  of clean segments, with a trailing slash when the input had one.
\<close>

lemma strip_normalize_absolute:
  assumes "p \<noteq> []" and "hd p = CHR ''/''"
  shows "strip_slashes (normalize_path p) =
           join_slash (normalized_segments False p)
           @ (if normalized_segments False p \<noteq> [] \<and> last p = CHR ''/'' then ''/'' else [])"
proof (cases "normalized_segments False p = []")
  case True
  with assms show ?thesis
    by (simp add: normalize_path_def normalizeString_def strip_slashes_def)
next
  case False
  with join_slash_clean_hd [OF False normalized_segments_clean]
  have "join_slash (normalized_segments False p) \<noteq> []"
    and "hd (join_slash (normalized_segments False p)) \<noteq> CHR ''/''"
    by simp_all
  then obtain c cs where "join_slash (normalized_segments False p) = c # cs" and "c \<noteq> CHR ''/''"
    by (cases "join_slash (normalized_segments False p)") auto
  with assms False show ?thesis
    by (simp add: normalize_path_def normalizeString_def strip_slashes_def Let_def)
qed

lemma strip_normalize_clean_segment:
  assumes "clean_segment s"
  shows "strip_slashes (normalize_path s) = s"
proof -
  from assms obtain c cs where s: "s = c # cs" "c \<noteq> CHR ''/''"
    by (cases s) (auto simp add: clean_segment_def)
  from assms have "s \<noteq> []" "CHR ''/'' \<notin> set s"
    by (simp_all add: clean_segment_def)
  then have l: "last s \<noteq> CHR ''/''"
    using last_in_set [of s] by metis
  have "normalizeString s True = s"
    using assms
    by (simp add: normalizeString_def normalized_segments_def split_slash_no_slash
        normalize_step_on_clean clean_segment_def)
  with s l show ?thesis
    by (simp add: normalize_path_def Let_def strip_slashes_def)
qed

lemma normalize_path_rooted:
  assumes "list_all clean_segment segsR" and "segsR \<noteq> []"
  shows "normalize_path (CHR ''/'' # join_slash segsR) = CHR ''/'' # join_slash segsR"
proof -
  have l: "last (CHR ''/'' # join_slash segsR) \<noteq> CHR ''/''"
    using join_slash_clean_last [OF assms(2,1)] join_slash_clean_hd [OF assms(2,1)] by simp
  have "foldl (normalize_step False) [] ([] # segsR) = segsR"
    using assms(1) by (simp add: normalize_step_empty normalize_fold_on_clean)
  then have "normalizeString (CHR ''/'' # join_slash segsR) False = join_slash segsR"
    unfolding normalizeString_def normalized_segments_def split_slash_rooted [OF assms] by simp
  with l join_slash_clean_hd [OF assms(2,1)] show ?thesis
    by (simp add: normalize_path_def Let_def)
qed

lemma normalize_path_under_root:
  assumes "list_all clean_segment segsR" and "segsR \<noteq> []"
    and "list_all clean_segment segs" and "segs \<noteq> []"
    and "t = [] \<or> t = ''/''"
  shows "normalize_path ((CHR ''/'' # join_slash segsR) @ CHR ''/'' # join_slash segs @ t)
           = (CHR ''/'' # join_slash segsR) @ CHR ''/'' # join_slash segs @ t"
proof -
  let ?root = "CHR ''/'' # join_slash segsR"
  let ?rel = "join_slash segs @ t"
  have sp_rel: "split_slash ?rel = segs @ (if t = [] then [] else [[]])"
    using assms(3,4,5) split_slash_append [of "join_slash segs" "[]"]
    by (auto simp add: split_join_slash clean_no_slash)
  have sp: "split_slash (?root @ CHR ''/'' # ?rel)
              = ([] # segsR) @ segs @ (if t = [] then [] else [[]])"
    unfolding split_slash_append split_slash_rooted [OF assms(1,2)] sp_rel by simp
  have f: "foldl (normalize_step False) [] (([] # segsR) @ segs @ (if t = [] then [] else [[]]))
             = segsR @ segs"
    using assms(1,3) by (simp add: normalize_step_empty normalize_fold_on_clean)
  have ns: "normalizeString (?root @ CHR ''/'' # ?rel) False = join_slash (segsR @ segs)"
    unfolding normalizeString_def normalized_segments_def sp f by simp
  have j: "join_slash (segsR @ segs) = join_slash segsR @ CHR ''/'' # join_slash segs"
    using assms(2,4) by (rule join_slash_append)
  have l: "(last (?root @ CHR ''/'' # ?rel) = CHR ''/'') = (t = ''/'')"
    using assms(5) join_slash_clean_last [OF assms(4,3)] join_slash_clean_hd [OF assms(4,3)]
    by auto
  have ne: "join_slash (segsR @ segs) \<noteq> []"
    using j by simp
  have q: "?root @ CHR ''/'' # ?rel \<noteq> []" "hd (?root @ CHR ''/'' # ?rel) = CHR ''/''"
    by simp_all
  have "normalize_path (?root @ CHR ''/'' # ?rel)
          = CHR ''/'' # join_slash (segsR @ segs) @ (if t = ''/'' then ''/'' else [])"
    unfolding normalize_path_absolute_form [OF q ns ne] l by (rule refl)
  then show ?thesis using assms(5) by (auto simp add: j)
qed

lemma join_path_under_root:
  assumes "list_all clean_segment segsR" and "segsR \<noteq> []"
    and "list_all clean_segment segs" and "t = [] \<or> t = ''/''" and "segs = [] \<longrightarrow> t = []"
  shows "join_path [CHR ''/'' # join_slash segsR, join_slash segs @ t]
           = (if segs = [] then CHR ''/'' # join_slash segsR
              else (CHR ''/'' # join_slash segsR) @ CHR ''/'' # join_slash segs @ t)"
proof (cases "segs = []")
  case True
  with assms(5) show ?thesis
    by (simp add: join_path_def normalize_path_rooted [OF assms(1,2)])
next
  case False
  then have "join_slash segs \<noteq> []" using assms(3) by (simp add: join_slash_clean_Nil)
  then have "join_path [CHR ''/'' # join_slash segsR, join_slash segs @ t]
               = normalize_path ((CHR ''/'' # join_slash segsR) @ CHR ''/'' # join_slash segs @ t)"
    by (simp add: join_path_def)
  with False show ?thesis
    by (simp only: normalize_path_under_root [OF assms(1,2,3) False assms(4)] if_False)
qed

text \<open>The client directory is a normalized absolute path that ends in \<^verbatim>\<open>dist/client\<close>.\<close>

lemma clientDir_form:
  assumes "wd \<noteq> []" and "hd wd = CHR ''/''"
  shows "\<exists>segsR. list_all clean_segment segsR \<and> segsR \<noteq> []
           \<and> clientDir wd = CHR ''/'' # join_slash segsR"
proof -
  have cd: "clientDir wd = CHR ''/'' # normalizeString (wd @ CHR ''/'' # ''dist/client/'') False"
    using assms by (simp add: clientDir_def resolve_path_def)
  have sp: "split_slash (wd @ CHR ''/'' # ''dist/client/'')
              = split_slash wd @ [''dist'', ''client'', []]"
    unfolding split_slash_append by simp
  have cl: "list_all clean_segment [''dist'', ''client'']"
    by (simp add: clean_segment_def)
  have "foldl (normalize_step False) [] (split_slash wd @ [''dist'', ''client'', []])
          = foldl (normalize_step False) [] (split_slash wd) @ [''dist'', ''client'']"
    by (simp add: normalize_step_empty normalize_step_on_clean clean_segment_def)
  then have "normalizeString (wd @ CHR ''/'' # ''dist/client/'') False
               = join_slash (normalized_segments False wd @ [''dist'', ''client''])"
    unfolding normalizeString_def normalized_segments_def sp by (rule arg_cong)
  with cd have "clientDir wd
                  = CHR ''/'' # join_slash (normalized_segments False wd @ [''dist'', ''client''])"
    by (simp only:)
  moreover have "list_all clean_segment (normalized_segments False wd @ [''dist'', ''client''])"
    using normalized_segments_clean [of wd] cl by simp
  ultimately show ?thesis by blast
qed

lemma descendant_of_under_root:
  assumes "list_all clean_segment segs" and "segs \<noteq> []" and "t = [] \<or> t = ''/''"
  shows "descendant_of root (root @ CHR ''/'' # join_slash segs @ t)"
proof -
  have sp_rel: "split_slash (join_slash segs @ t) = segs @ (if t = [] then [] else [[]])"
    using assms split_slash_append [of "join_slash segs" "[]"]
    by (auto simp add: split_join_slash clean_no_slash)
  have "filter (\<lambda>s. s \<noteq> [] \<and> s \<noteq> ''.'') segs = segs"
    using assms(1) by (simp add: list_all_iff clean_segment_def filter_id_conv)
  then have ps: "path_segments (join_slash segs @ t) = segs"
    by (simp add: path_segments_def sp_rel)
  have "''..'' \<notin> set segs"
    using assms(1) by (auto simp add: list_all_iff clean_segment_def)
  with ps assms(2) show ?thesis
    by (simp add: descendant_of_def Let_def)
qed

section \<open>Facts about the example deployment\<close>

lemma clientDir_app: "clientDir ''/app'' = ''/app/dist/client''"
  by (simp add: clientDir_def resolve_path_def normalizeString_def normalized_segments_def
      normalize_step_def)

lemma cwd_example: "cwd example_runtime = ''/app''"
  by (simp add: example_runtime_def)

lemma example_runtime_accepts: "request_rejected example_runtime init = None"
  by (simp add: example_runtime_def)

lemma example_handler_404:
  "handlerFetch example_runtime request
     = Returns \<lparr>resp_status = 404, resp_headers = [(''content-type'', ''text/html'')],
                resp_body = Some (''not found'', None)\<rparr>"
  by (simp add: example_runtime_def)

lemma fsPath_favicon:
  "safeJoin_fsPath ''/app/dist/client'' ''/favicon.ico'' = ''/app/dist/client/favicon.ico''"
  by (simp add: safeJoin_fsPath_def normalize_path_def normalizeString_def
      normalized_segments_def normalize_step_def strip_slashes_def join_path_def)

lemma fsPath_app_js:
  "safeJoin_fsPath ''/app/dist/client'' ''/assets/app.js'' = ''/app/dist/client/assets/app.js''"
  by (simp add: safeJoin_fsPath_def normalize_path_def normalizeString_def
      normalized_segments_def normalize_step_def strip_slashes_def join_path_def)

lemma fsPath_style_css:
  "safeJoin_fsPath ''/app/dist/client'' ''/assets/style.css''
     = ''/app/dist/client/assets/style.css''"
  by (simp add: safeJoin_fsPath_def normalize_path_def normalizeString_def
      normalized_segments_def normalize_step_def strip_slashes_def join_path_def)

lemma fsPath_upper_js:
  "safeJoin_fsPath ''/app/dist/client'' ''/assets/APP.JS'' = ''/app/dist/client/assets/APP.JS''"
  by (simp add: safeJoin_fsPath_def normalize_path_def normalizeString_def
      normalized_segments_def normalize_step_def strip_slashes_def join_path_def)

lemma fsPath_traversal_index:
  "safeJoin_fsPath ''/app/dist/client'' ''/assets/../index.html''
     = ''/app/dist/client/index.html''"
  by (simp add: safeJoin_fsPath_def normalize_path_def normalizeString_def
      normalized_segments_def normalize_step_def strip_slashes_def join_path_def)

lemma fsPath_traversal_passwd:
  "safeJoin_fsPath ''/app/dist/client'' ''/assets/../../etc/passwd''
     = ''/app/dist/client/etc/passwd''"
  by (simp add: safeJoin_fsPath_def normalize_path_def normalizeString_def
      normalized_segments_def normalize_step_def strip_slashes_def join_path_def)

lemma stat_example_files:
  "stat_of example_fs ''/app/dist/client/index.html'' = Returns \<lparr>isFile = True\<rparr>"
  "stat_of example_fs ''/app/dist/client/assets/app.js'' = Returns \<lparr>isFile = True\<rparr>"
  "stat_of example_fs ''/app/dist/client/assets/APP.JS'' = Returns \<lparr>isFile = True\<rparr>"
  "stat_of example_fs ''/app/dist/client/assets/style.css'' = Returns \<lparr>isFile = True\<rparr>"
  "stat_of example_fs ''/app/dist/client'' = Returns \<lparr>isFile = False\<rparr>"
  "stat_of example_fs ''/app/dist/client/favicon.ico'' = Throws (SystemError ''ENOENT'')"
  "stat_of example_fs ''/app/dist/client/etc/passwd'' = Throws (SystemError ''ENOENT'')"
  by (simp_all add: example_fs_def)

lemma stream_example_files:
  "stream_of example_fs ''/app/dist/client/assets/app.js'' = (''console.log(1)'', None)"
  "stream_of example_fs ''/app/dist/client/assets/APP.JS'' = (''console.log(1)'', None)"
  "stream_of example_fs ''/app/dist/client/assets/style.css''
     = (''body{'', Some (SystemError ''EIO''))"
  by (simp_all add: example_fs_def)

lemma request_url_example:
  "request_url example_runtime (example_get t)
     = Returns \<lparr>pathname = t, href = ''http://example.org'' @ t\<rparr>"
  by (simp add: request_url_def example_runtime_def example_get_def)

text \<open>The descendant relation on examples: the root itself, a sibling and a step back are out.\<close>

lemma descendant_of_examples:
  "descendant_of ''/app/dist/client'' ''/app/dist/client/assets/app.js''"
  "\<not> descendant_of ''/app/dist/client'' ''/app/dist/client''"
  "\<not> descendant_of ''/app/dist/client'' ''/app/dist/client/''"
  "\<not> descendant_of ''/app/dist/client'' ''/app/dist/clientele/app.js''"
  "\<not> descendant_of ''/app/dist/client'' ''/app/dist/client/../server/server.js''"
  "\<not> descendant_of ''/app/dist/client'' ''/etc/passwd''"
  by (simp_all add: descendant_of_def path_segments_def)

section \<open>The resolver: what a call returns\<close>

lemma safeJoin_returns: "\<exists>r. safeJoin root p fs = (Returns r, fs)"
  by (simp add: safeJoin_def stat_def Let_def split: outcome.splits)

lemma resolveStatic_returns: "\<exists>r. resolveStatic root p fs = (Returns r, fs)"
  by (simp add: resolveStatic_def Let_def safeJoin_returns)

lemma safeJoin_Some:
  "safeJoin root p fs = (Returns (Some f), fs') \<Longrightarrow>
     f = safeJoin_fsPath root p \<and> fs' = fs \<and> (\<exists>st. stat_of fs f = Returns st \<and> isFile st)"
  by (auto simp add: safeJoin_def stat_def Let_def split: outcome.splits if_splits)

lemma resolveStatic_Some:
  "resolveStatic root p fs = (Returns (Some f), fs') \<Longrightarrow>
     f = safeJoin_fsPath root p \<and> fs' = fs \<and> (\<exists>st. stat_of fs f = Returns st \<and> isFile st)"
  by (auto simp add: resolveStatic_def Let_def dest: safeJoin_Some split: if_splits)

lemma resolveStatic_Some_nonempty:
  "resolveStatic root p fs = (Returns (Some f), fs') \<Longrightarrow> f \<noteq> []"
  by (auto dest!: resolveStatic_Some simp add: safeJoin_fsPath_def Let_def join_path_nonempty)

lemma resolveStatic_assets_hit:
  assumes "startsWith p ''/assets/''" and "stat_of fs (safeJoin_fsPath root p) = Returns st"
    and "isFile st"
  shows "resolveStatic root p fs = (Returns (Some (safeJoin_fsPath root p)), fs)"
  using assms by (simp add: resolveStatic_def safeJoin_def stat_def Let_def)

lemma resolveStatic_assets_miss:
  assumes "startsWith p ''/assets/''" and "stat_of fs (safeJoin_fsPath root p) = Throws e"
  shows "resolveStatic root p fs = (Returns None, fs)"
  using assms by (simp add: resolveStatic_def safeJoin_def stat_def Let_def)

lemma staticFiles_clean: "n \<in> set staticFiles \<Longrightarrow> clean_segment n"
  by (auto simp add: staticFiles_def clean_segment_def)

text \<open>
  For a path that either rule accepts, the relative path that \<^verbatim>\<open>safeJoin\<close> joins onto
  the root is a slash-joined list of clean segments, possibly with a trailing slash.
\<close>

lemma candidate_relative_form:
  assumes "startsWith p ''/assets/'' \<or> strip_one_slash p \<in> set staticFiles"
  shows "\<exists>segs t. list_all clean_segment segs \<and> (t = [] \<or> t = ''/'') \<and> (segs = [] \<longrightarrow> t = [])
           \<and> strip_slashes (normalize_path p) = join_slash segs @ t"
proof (cases "p \<noteq> [] \<and> hd p = CHR ''/''")
  case True
  then have "strip_slashes (normalize_path p) =
           join_slash (normalized_segments False p)
           @ (if normalized_segments False p \<noteq> [] \<and> last p = CHR ''/'' then ''/'' else [])"
    by (simp add: strip_normalize_absolute)
  then show ?thesis
    using normalized_segments_clean [of p]
    by (intro exI [of _ "normalized_segments False p"]) auto
next
  case False
  then have ns: "\<not> startsWith p ''/assets/''"
    by (cases p) (auto simp add: startsWith_def)
  from False have "strip_one_slash p = p"
    by (cases p) (auto simp add: strip_one_slash_def)
  with assms ns have "clean_segment p" by (simp add: staticFiles_clean)
  then have "strip_slashes (normalize_path p) = join_slash [p] @ []" "list_all clean_segment [p]"
    by (simp_all add: strip_normalize_clean_segment)
  then show ?thesis by blast
qed

section \<open>The resolver: rejection, failure and repetition\<close>

text \<open>
  Claim C5. A path that does not start with \<^verbatim>\<open>/assets/\<close> and whose remainder, after one
  leading slash is removed, is no entry of the allow-list resolves to no match (and the
  filesystem is handed back untouched).
\<close>

theorem resolveStatic_rejects_other_paths:
  assumes "\<not> startsWith p ''/assets/''" and "strip_one_slash p \<notin> set staticFiles"
  shows "resolveStatic root p fs = (Returns None, fs)"
  using assms by (simp add: resolveStatic_def)

theorem resolveStatic_rejects_other_paths_witness:
  "\<not> startsWith ''/api/anything'' ''/assets/''
   \<and> strip_one_slash ''/api/anything'' \<notin> set staticFiles
   \<and> resolveStatic (clientDir ''/app'') ''/api/anything'' example_fs = (Returns None, example_fs)"
proof -
  have a: "\<not> startsWith ''/api/anything'' ''/assets/''"
    by (simp add: startsWith_def)
  have b: "strip_one_slash ''/api/anything'' \<notin> set staticFiles"
    by (simp add: strip_one_slash_def staticFiles_def)
  from resolveStatic_rejects_other_paths [OF a b] a b show ?thesis by blast
qed

text \<open>
  Claim C6. When \<^verbatim>\<open>stat\<close> of the joined path throws (a missing path, a denied
  permission) or reports something that is no regular file (a directory), the resolver
  returns no match; and on every path and filesystem the resolver returns, it never throws
  to its caller.
\<close>

theorem resolveStatic_failed_stat_is_no_match:
  assumes "stat_of fs (safeJoin_fsPath root p) = Throws e
           \<or> (\<exists>st. stat_of fs (safeJoin_fsPath root p) = Returns st \<and> \<not> isFile st)"
  shows "resolveStatic root p fs = (Returns None, fs)
         \<and> (\<forall>q fs'. \<exists>r. resolveStatic root q fs' = (Returns r, fs'))"
proof -
  from assms have "safeJoin root p fs = (Returns None, fs)"
    by (auto simp add: safeJoin_def stat_def Let_def)
  then have "resolveStatic root p fs = (Returns None, fs)"
    by (simp add: resolveStatic_def Let_def)
  then show ?thesis using resolveStatic_returns by blast
qed

theorem resolveStatic_failed_stat_is_no_match_witness:
  "stat_of example_fs (safeJoin_fsPath (clientDir ''/app'') ''/favicon.ico'')
     = Throws (SystemError ''ENOENT'')
   \<and> resolveStatic (clientDir ''/app'') ''/favicon.ico'' example_fs = (Returns None, example_fs)"
proof -
  have a: "stat_of example_fs (safeJoin_fsPath (clientDir ''/app'') ''/favicon.ico'')
             = Throws (SystemError ''ENOENT'')"
    by (simp add: clientDir_app fsPath_favicon stat_example_files)
  from resolveStatic_failed_stat_is_no_match [OF disjI1, OF a] a show ?thesis by blast
qed

text \<open>The directory case of the same claim, on the example: \<^verbatim>\<open>/assets/..\<close> is the root.\<close>

lemma resolveStatic_directory_example:
  "resolveStatic (clientDir ''/app'') ''/assets/..'' example_fs = (Returns None, example_fs)"
proof -
  have "safeJoin_fsPath ''/app/dist/client'' ''/assets/..'' = ''/app/dist/client''"
    by (simp add: safeJoin_fsPath_def normalize_path_def normalizeString_def
        normalized_segments_def normalize_step_def strip_slashes_def join_path_def)
  then show ?thesis
    by (simp add: clientDir_app resolveStatic_def startsWith_def safeJoin_def stat_def
        stat_example_files)
qed

lemma safeJoin_run:
  "safeJoin root p fs =
     ((case stat_of fs (safeJoin_fsPath root p) of
         Throws e \<Rightarrow> Returns None
       | Returns st \<Rightarrow>
           if isFile st then Returns (Some (safeJoin_fsPath root p)) else Returns None),
      fs)"
  by (simp add: safeJoin_def stat_def Let_def split: outcome.splits)

text \<open>With the set as the module creates it, a call is the resolver of the sections above.\<close>

lemma resolveStatic_call_at_start:
  "resolveStatic_call root p (module_at_start, fs) =
     (fst (resolveStatic root p fs), module_at_start, snd (resolveStatic root p fs))"
  by (simp add: resolveStatic_call_def resolveStatic_def module_at_start_def Let_def
      split: prod.splits)

text \<open>
  Claim C9. Take two calls with the same path, one after the other: the first on any
  objects of the module and any filesystem, the second on the objects the first call left
  and on a filesystem that answers \<^verbatim>\<open>stat\<close> for the joined path as the first call's
  filesystem does, which an unchanged filesystem does. Then the second call returns what
  the first returned, and neither call has changed the set of allowed names or the
  filesystem it was given: nothing is carried from one call to the next.
\<close>

theorem resolveStatic_call_repeatable:
  assumes "resolveStatic_call root p (objects, fs) = (r1, objects1, fs1)"
    and "stat_of fs2 (safeJoin_fsPath root p) = stat_of fs1 (safeJoin_fsPath root p)"
    and "resolveStatic_call root p (objects1, fs2) = (r2, objects2, fs3)"
  shows "r2 = r1 \<and> objects1 = objects \<and> fs1 = fs \<and> objects2 = objects \<and> fs3 = fs2"
proof -
  from assms(1) have a: "objects1 = objects" "fs1 = fs"
    by (auto simp add: resolveStatic_call_def safeJoin_run Let_def split: if_splits)
  from assms(3) have b: "objects2 = objects1" "fs3 = fs2"
    by (auto simp add: resolveStatic_call_def safeJoin_run Let_def split: if_splits)
  from assms have "r2 = r1"
    by (auto simp add: resolveStatic_call_def safeJoin_run Let_def a split: if_splits)
  with a b show ?thesis by simp
qed

lemma resolveStatic_call_app_js:
  "resolveStatic_call (clientDir ''/app'') ''/assets/app.js'' (module_at_start, example_fs)
     = (Returns (Some ''/app/dist/client/assets/app.js''), module_at_start, example_fs)"
proof -
  have "startsWith ''/assets/app.js'' ''/assets/''" by (simp add: startsWith_def)
  from resolveStatic_assets_hit [OF this, of example_fs "''/app/dist/client''" "\<lparr>isFile = True\<rparr>"]
  have "resolveStatic (clientDir ''/app'') ''/assets/app.js'' example_fs
          = (Returns (Some ''/app/dist/client/assets/app.js''), example_fs)"
    by (simp add: clientDir_app fsPath_app_js stat_example_files)
  then show ?thesis by (simp add: resolveStatic_call_at_start)
qed

theorem resolveStatic_call_repeatable_witness:
  "resolveStatic_call (clientDir ''/app'') ''/assets/app.js'' (module_at_start, example_fs)
     = (Returns (Some ''/app/dist/client/assets/app.js''), module_at_start, example_fs)
   \<and> stat_of example_fs (safeJoin_fsPath (clientDir ''/app'') ''/assets/app.js'')
     = Returns \<lparr>isFile = True\<rparr>
   \<and> fst (resolveStatic_call (clientDir ''/app'') ''/assets/app.js''
            (snd (resolveStatic_call (clientDir ''/app'') ''/assets/app.js''
                    (module_at_start, example_fs))))
     = Returns (Some ''/app/dist/client/assets/app.js'')"
proof -
  have a: "resolveStatic_call (clientDir ''/app'') ''/assets/app.js'' (module_at_start, example_fs)
     = (Returns (Some ''/app/dist/client/assets/app.js''), module_at_start, example_fs)"
    by (rule resolveStatic_call_app_js)
  have b: "stat_of example_fs (safeJoin_fsPath (clientDir ''/app'') ''/assets/app.js'')
     = stat_of example_fs (safeJoin_fsPath (clientDir ''/app'') ''/assets/app.js'')"
    by (rule refl)
  have c: "resolveStatic_call (clientDir ''/app'') ''/assets/app.js'' (module_at_start, example_fs)
     = (fst (resolveStatic_call (clientDir ''/app'') ''/assets/app.js''
               (module_at_start, example_fs)),
        fst (snd (resolveStatic_call (clientDir ''/app'') ''/assets/app.js''
               (module_at_start, example_fs))),
        snd (snd (resolveStatic_call (clientDir ''/app'') ''/assets/app.js''
               (module_at_start, example_fs))))"
    by simp
  have s: "stat_of example_fs (safeJoin_fsPath (clientDir ''/app'') ''/assets/app.js'')
     = Returns \<lparr>isFile = True\<rparr>"
    by (simp add: clientDir_app fsPath_app_js stat_example_files)
  from resolveStatic_call_repeatable [OF a b c] a s show ?thesis by simp
qed

section \<open>The resolver: containment in the client directory\<close>

text \<open>
  Claim C1. With an absolute working directory and a client directory that is not itself a
  regular file, every path the resolver returns, for any input path whatever, is a
  descendant of the client directory. Traversal segments in the input cannot lead out:
  normalizing an absolute path drops every \<^verbatim>\<open>..\<close> that would climb above the root.
\<close>

theorem resolveStatic_stays_under_clientDir:
  assumes "wd \<noteq> []" and "hd wd = CHR ''/''"
    and "\<forall>st. stat_of fs (clientDir wd) = Returns st \<longrightarrow> \<not> isFile st"
    and "fst (resolveStatic (clientDir wd) p fs) = Returns (Some f)"
  shows "descendant_of (clientDir wd) f"
proof -
  obtain fs' where r: "resolveStatic (clientDir wd) p fs = (Returns (Some f), fs')"
    using assms(4) by (cases "resolveStatic (clientDir wd) p fs") simp
  from resolveStatic_Some [OF r] obtain st where
    f: "f = safeJoin_fsPath (clientDir wd) p" and st: "stat_of fs f = Returns st" "isFile st"
    by blast
  have cand: "startsWith p ''/assets/'' \<or> strip_one_slash p \<in> set staticFiles"
    using r by (auto simp add: resolveStatic_def Let_def split: if_splits)
  from candidate_relative_form [OF cand] obtain segs t where
    rel: "list_all clean_segment segs" "t = [] \<or> t = ''/''" "segs = [] \<longrightarrow> t = []"
         "strip_slashes (normalize_path p) = join_slash segs @ t"
    by blast
  from clientDir_form [OF assms(1,2)] obtain segsR where
    root: "list_all clean_segment segsR" "segsR \<noteq> []"
          "clientDir wd = CHR ''/'' # join_slash segsR"
    by blast
  have fp: "f = (if segs = [] then clientDir wd
                 else clientDir wd @ CHR ''/'' # join_slash segs @ t)"
    unfolding f safeJoin_fsPath_def Let_def rel(4) root(3)
    by (rule join_path_under_root [OF root(1,2) rel(1,2,3)])
  have "segs \<noteq> []"
  proof
    assume "segs = []"
    with fp have "f = clientDir wd" by simp
    with st assms(3) show False by simp
  qed
  with fp have "f = clientDir wd @ CHR ''/'' # join_slash segs @ t" by simp
  with descendant_of_under_root [OF rel(1) \<open>segs \<noteq> []\<close> rel(2)] show ?thesis by simp
qed

lemma resolve_traversal_index:
  "resolveStatic (clientDir ''/app'') ''/assets/../index.html'' example_fs
     = (Returns (Some ''/app/dist/client/index.html''), example_fs)"
proof -
  have "startsWith ''/assets/../index.html'' ''/assets/''" by (simp add: startsWith_def)
  from resolveStatic_assets_hit [OF this, of example_fs "''/app/dist/client''" "\<lparr>isFile = True\<rparr>"]
  show ?thesis by (simp add: clientDir_app fsPath_traversal_index stat_example_files)
qed

theorem resolveStatic_stays_under_clientDir_witness:
  "''/app'' \<noteq> [] \<and> hd ''/app'' = CHR ''/''
   \<and> stat_of example_fs (clientDir ''/app'') = Returns \<lparr>isFile = False\<rparr>
   \<and> fst (resolveStatic (clientDir ''/app'') ''/assets/../index.html'' example_fs)
       = Returns (Some ''/app/dist/client/index.html'')
   \<and> descendant_of (clientDir ''/app'') ''/app/dist/client/index.html''"
proof -
  have a: "''/app'' \<noteq> []" and b: "hd ''/app'' = CHR ''/''" by simp_all
  have s: "stat_of example_fs (clientDir ''/app'') = Returns \<lparr>isFile = False\<rparr>"
    by (simp add: clientDir_app stat_example_files)
  then have c: "\<forall>st. stat_of example_fs (clientDir ''/app'') = Returns st \<longrightarrow> \<not> isFile st"
    by simp
  have d: "fst (resolveStatic (clientDir ''/app'') ''/assets/../index.html'' example_fs)
             = Returns (Some ''/app/dist/client/index.html'')"
    by (simp add: resolve_traversal_index)
  from resolveStatic_stays_under_clientDir [OF a b c d] a b s d show ?thesis by blast
qed

text \<open>The traversal path of the specification, on the example: it stays below the root.\<close>

lemma resolve_traversal_passwd_example:
  "safeJoin_fsPath (clientDir ''/app'') ''/assets/../../etc/passwd''
     = ''/app/dist/client/etc/passwd''
   \<and> resolveStatic (clientDir ''/app'') ''/assets/../../etc/passwd'' example_fs
     = (Returns None, example_fs)"
proof -
  have "startsWith ''/assets/../../etc/passwd'' ''/assets/''" by (simp add: startsWith_def)
  from resolveStatic_assets_miss [OF this, of example_fs "''/app/dist/client''" "SystemError ''ENOENT''"]
  show ?thesis by (simp add: clientDir_app fsPath_traversal_passwd stat_example_files)
qed

text \<open>
  Claim C10. The path \<^verbatim>\<open>/assets/../index.html\<close> has the \<^verbatim>\<open>/assets/\<close> prefix and a
  parent-directory segment; on the example filesystem the resolver returns for it the
  regular file \<^verbatim>\<open>index.html\<close> directly under the client directory, although
  \<^verbatim>\<open>index.html\<close> is not in the allow-list and the bare path \<^verbatim>\<open>/index.html\<close> is rejected.
\<close>

theorem assets_traversal_reaches_root_file:
  "startsWith ''/assets/../index.html'' ''/assets/''
   \<and> ''..'' \<in> set (split_slash ''/assets/../index.html'')
   \<and> resolveStatic (clientDir ''/app'') ''/assets/../index.html'' example_fs
       = (Returns (Some (clientDir ''/app'' @ ''/index.html'')), example_fs)
   \<and> stat_of example_fs (clientDir ''/app'' @ ''/index.html'') = Returns \<lparr>isFile = True\<rparr>
   \<and> ''index.html'' \<notin> set staticFiles
   \<and> resolveStatic (clientDir ''/app'') ''/index.html'' example_fs = (Returns None, example_fs)"
proof -
  have "startsWith ''/assets/../index.html'' ''/assets/''" by (simp add: startsWith_def)
  moreover have "''..'' \<in> set (split_slash ''/assets/../index.html'')" by simp
  moreover have "resolveStatic (clientDir ''/app'') ''/assets/../index.html'' example_fs
       = (Returns (Some (clientDir ''/app'' @ ''/index.html'')), example_fs)"
    using resolve_traversal_index by (simp add: clientDir_app)
  moreover have "stat_of example_fs (clientDir ''/app'' @ ''/index.html'')
                   = Returns \<lparr>isFile = True\<rparr>"
    by (simp add: clientDir_app stat_example_files)
  moreover have "''index.html'' \<notin> set staticFiles" by (simp add: staticFiles_def)
  moreover have "resolveStatic (clientDir ''/app'') ''/index.html'' example_fs
                   = (Returns None, example_fs)"
    by (simp add: resolveStatic_def startsWith_def strip_one_slash_def staticFiles_def)
  ultimately show ?thesis by blast
qed

text \<open>
  The same for every root-level name: whatever clean segment \<open>n\<close> names a regular file
  directly under the client directory, the path \<^verbatim>\<open>/assets/../n\<close> resolves to it.
\<close>

lemma fsPath_assets_traversal:
  assumes "wd \<noteq> []" and "hd wd = CHR ''/''" and "clean_segment n"
    and "p = ''/assets/../'' @ n"
  shows "safeJoin_fsPath (clientDir wd) p = clientDir wd @ CHR ''/'' # n"
proof -
  from assms(3) have n: "n \<noteq> []" "CHR ''/'' \<notin> set n" "n \<noteq> ''.''" "n \<noteq> ''..''"
    by (simp_all add: clean_segment_def)
  then have "last n \<noteq> CHR ''/''" using last_in_set [of n] by metis
  with n(1) have l: "last p \<noteq> CHR ''/''" by (simp add: assms(4))
  have p: "p \<noteq> []" "hd p = CHR ''/''" by (simp_all add: assms(4))
  have sp: "split_slash p = [[], ''assets'', ''..'', n]"
    using n(2) by (simp add: assms(4) split_slash_no_slash)
  have ns: "normalized_segments False p = [n]"
    unfolding normalized_segments_def sp using n by (simp add: normalize_step_def)
  have rel: "strip_slashes (normalize_path p) = join_slash [n] @ []"
    unfolding strip_normalize_absolute [OF p] ns using l by simp
  from clientDir_form [OF assms(1,2)] obtain segsR where
    root: "list_all clean_segment segsR" "segsR \<noteq> []"
          "clientDir wd = CHR ''/'' # join_slash segsR"
    by blast
  have "join_path [CHR ''/'' # join_slash segsR, join_slash [n] @ []]
          = (CHR ''/'' # join_slash segsR) @ CHR ''/'' # join_slash [n] @ []"
    using join_path_under_root [OF root(1,2), of "[n]" "[]"] assms(3) by simp
  then show ?thesis
    unfolding safeJoin_fsPath_def Let_def rel root(3) by simp
qed

lemma assets_traversal_reaches_any_root_file:
  assumes "wd \<noteq> []" and "hd wd = CHR ''/''" and "clean_segment n"
    and "stat_of fs (clientDir wd @ CHR ''/'' # n) = Returns st" and "isFile st"
  shows "resolveStatic (clientDir wd) (''/assets/../'' @ n) fs
           = (Returns (Some (clientDir wd @ CHR ''/'' # n)), fs)"
proof -
  define p where "p = ''/assets/../'' @ n"
  have "startsWith p ''/assets/''" by (simp add: p_def startsWith_def)
  from resolveStatic_assets_hit [OF this, of fs "clientDir wd" st] assms(4,5)
  have "resolveStatic (clientDir wd) p fs = (Returns (Some (clientDir wd @ CHR ''/'' # n)), fs)"
    by (simp add: fsPath_assets_traversal [OF assms(1,2,3) p_def])
  then show ?thesis by (simp only: p_def)
qed

section \<open>The dispatcher: building blocks\<close>

lemma lower_content_type: "toLowerCase ''Content-Type'' = ''content-type''"
  by (simp add: toLowerCase_def lower_char_def)

lemma lower_cache_control: "toLowerCase ''Cache-Control'' = ''cache-control''"
  by (simp add: toLowerCase_def lower_char_def)

lemma handleError_before_head:
  "\<not> headersSent x \<Longrightarrow> endCalls x = 0 \<Longrightarrow>
   handleError e x =
     x\<lparr>statusCode := 500, headers := AList.update ''content-type'' ''text/plain'' (headers x),
       headersSent := True, written := written x @ ''Internal Server Error'', endCalls := 1,
       errorLog := errorLog x @ [e]\<rparr>"
  by (simp add: handleError_def console_error_def setHeader_def end_response_def
      lower_content_type Let_def)

lemma handleError_after_head:
  "headersSent x \<Longrightarrow> endCalls x = 0 \<Longrightarrow>
   handleError e x =
     x\<lparr>written := written x @ ''Internal Server Error'', endCalls := 1,
       errorLog := errorLog x @ [e]\<rparr>"
  by (simp add: handleError_def console_error_def end_response_def Let_def)

lemma handleError_fresh:
  "handleError e fresh_exchange =
     \<lparr>statusCode = 500, headers = [(''content-type'', ''text/plain'')], headersSent = True,
      written = ''Internal Server Error'', endCalls = 1, errorLog = [e], handlerCalls = [],
      uncaught = []\<rparr>"
  by (simp add: handleError_before_head fresh_exchange_def)

lemma static_head:
  "setHeader ''Cache-Control'' c (setHeader ''Content-Type'' t (fresh_exchange\<lparr>statusCode := 200\<rparr>))
   = \<lparr>statusCode = 200, headers = [(''content-type'', t), (''cache-control'', c)],
       headersSent = False, written = [], endCalls = 0, errorLog = [], handlerCalls = [],
       uncaught = []\<rparr>"
  by (simp add: setHeader_def fresh_exchange_def lower_content_type lower_cache_control)

lemma try_block_static:
  assumes "request_url rt req = Returns url"
    and "fst (resolveStatic (clientDir (cwd rt)) (pathname url) fs) = Returns (Some f)"
  shows "try_block rt fs req x = (Returns (), serve_static fs f x)"
proof -
  obtain fs' where
    r: "resolveStatic (clientDir (cwd rt)) (pathname url) fs = (Returns (Some f), fs')"
    using assms(2) by (cases "resolveStatic (clientDir (cwd rt)) (pathname url) fs") simp
  from resolveStatic_Some [OF r] resolveStatic_Some_nonempty [OF r]
  have "fs' = fs" "f \<noteq> []" by simp_all
  with assms(1) r show ?thesis by (simp add: try_block_def)
qed

lemma try_block_miss:
  assumes "request_url rt req = Returns url"
    and "fst (resolveStatic (clientDir (cwd rt)) (pathname url) fs) = Returns None"
  shows "try_block rt fs req x = delegate rt req url x"
proof -
  obtain fs' where "resolveStatic (clientDir (cwd rt)) (pathname url) fs = (Returns None, fs')"
    using assms(2) by (cases "resolveStatic (clientDir (cwd rt)) (pathname url) fs") simp
  with assms(1) show ?thesis by (simp add: try_block_def)
qed

text \<open>The identifier \<^verbatim>\<open>handler\<close> is unbound, so line 65 throws before any call.\<close>

lemma handler_unbound: "identifier_bound ''handler'' = Throws (ReferenceError ''handler'')"
  by (simp add: identifier_bound_def scope_at_delegation_def)

lemma call_handler_throws:
  "call_handler rt request x = (Throws (ReferenceError ''handler''), x)"
  by (simp add: call_handler_def handler_unbound)

lemma delegate_fails:
  "delegate rt req url x =
     (Throws (case request_rejected rt (request_init req url) of
                None \<Rightarrow> ReferenceError ''handler'' | Some e \<Rightarrow> e), x)"
  by (simp add: delegate_def new_Request_def call_handler_throws split: option.splits)

lemma serve_static_complete:
  assumes "stream_of fs f = (contents, None)"
  shows "serve_static fs f fresh_exchange =
           \<lparr>statusCode = 200,
            headers =
              [(''content-type'',
                (case map_of mimeMap (extname f) of
                   None \<Rightarrow> ''application/octet-stream'' | Some t \<Rightarrow> t)),
               (''cache-control'', ''public, max-age=31536000, immutable'')],
            headersSent = True, written = contents, endCalls = 1, errorLog = [],
            handlerCalls = [], uncaught = []\<rparr>"
  using assms
  by (simp add: serve_static_def Let_def static_head pipe_stream_def write_chunk_def
      end_response_def)

lemma serve_static_midstream:
  assumes "stream_of fs f = (delivered, Some err)" and "delivered \<noteq> []"
  shows "serve_static fs f fresh_exchange =
           \<lparr>statusCode = 200,
            headers =
              [(''content-type'',
                (case map_of mimeMap (extname f) of
                   None \<Rightarrow> ''application/octet-stream'' | Some t \<Rightarrow> t)),
               (''cache-control'', ''public, max-age=31536000, immutable'')],
            headersSent = True, written = delivered @ ''Internal Server Error'', endCalls = 1,
            errorLog = [err], handlerCalls = [], uncaught = []\<rparr>"
  using assms
  by (simp add: serve_static_def Let_def static_head pipe_stream_def write_chunk_def
      handleError_after_head)

lemma resolve_example_assets:
  "resolveStatic (clientDir (cwd example_runtime)) ''/assets/app.js'' example_fs
     = (Returns (Some ''/app/dist/client/assets/app.js''), example_fs)"
  "resolveStatic (clientDir (cwd example_runtime)) ''/assets/APP.JS'' example_fs
     = (Returns (Some ''/app/dist/client/assets/APP.JS''), example_fs)"
  "resolveStatic (clientDir (cwd example_runtime)) ''/assets/style.css'' example_fs
     = (Returns (Some ''/app/dist/client/assets/style.css''), example_fs)"
proof -
  have a: "startsWith ''/assets/app.js'' ''/assets/''"
    and b: "startsWith ''/assets/APP.JS'' ''/assets/''"
    and c: "startsWith ''/assets/style.css'' ''/assets/''"
    by (simp_all add: startsWith_def)
  from resolveStatic_assets_hit [OF a, of example_fs "''/app/dist/client''" "\<lparr>isFile = True\<rparr>"]
  show "resolveStatic (clientDir (cwd example_runtime)) ''/assets/app.js'' example_fs
     = (Returns (Some ''/app/dist/client/assets/app.js''), example_fs)"
    by (simp add: cwd_example clientDir_app fsPath_app_js stat_example_files)
  from resolveStatic_assets_hit [OF b, of example_fs "''/app/dist/client''" "\<lparr>isFile = True\<rparr>"]
  show "resolveStatic (clientDir (cwd example_runtime)) ''/assets/APP.JS'' example_fs
     = (Returns (Some ''/app/dist/client/assets/APP.JS''), example_fs)"
    by (simp add: cwd_example clientDir_app fsPath_upper_js stat_example_files)
  from resolveStatic_assets_hit [OF c, of example_fs "''/app/dist/client''" "\<lparr>isFile = True\<rparr>"]
  show "resolveStatic (clientDir (cwd example_runtime)) ''/assets/style.css'' example_fs
     = (Returns (Some ''/app/dist/client/assets/style.css''), example_fs)"
    by (simp add: cwd_example clientDir_app fsPath_style_css stat_example_files)
qed

lemma resolve_example_api:
  "resolveStatic (clientDir (cwd example_runtime)) ''/api/anything'' example_fs
     = (Returns None, example_fs)"
  by (simp add: resolveStatic_def startsWith_def strip_one_slash_def staticFiles_def)

lemma extname_examples:
  "extname ''/app/dist/client/assets/app.js'' = ''.js''"
  "extname ''/app/dist/client/assets/APP.JS'' = ''.JS''"
  "extname ''/app/dist/client/assets/style.css'' = ''.css''"
  by (simp_all add: extname_def basename_segment_def)

lemma mimeMap_examples:
  "map_of mimeMap ''.js'' = Some ''application/javascript''"
  "map_of mimeMap ''.JS'' = None"
  "map_of mimeMap ''.css'' = Some ''text/css''"
  by (simp_all add: mimeMap_def)

section \<open>The module's content type is the specification's\<close>

lemma split_slash_snoc:
  "split_slash (p @ [c]) =
     (if c = CHR ''/'' then split_slash p @ [[]]
      else butlast (split_slash p) @ [last (split_slash p) @ [c]])"
  by (induction p) (auto split: list.splits simp add: split_slash_not_Nil)

lemma last_split_slash:
  "last (split_slash p) = rev (takeWhile (\<lambda>c. c \<noteq> CHR ''/'') (rev p))"
  by (induction p rule: rev_induct) (simp_all add: split_slash_snoc)

lemma basename_segment_last:
  "basename_segment p =
     (let segs = filter (\<lambda>s. s \<noteq> []) (split_slash p) in if segs = [] then [] else last segs)"
  by (simp add: basename_segment_def Let_def split: list.splits)

lemma basename_segment_spec: "basename_segment p = spec_file_name p"
proof (induction p rule: rev_induct)
  case Nil
  show ?case by (simp add: basename_segment_last spec_file_name_def)
next
  case (snoc c p)
  show ?case
  proof (cases "c = CHR ''/''")
    case True
    with snoc show ?thesis
      by (simp add: basename_segment_last spec_file_name_def split_slash_snoc)
  next
    case False
    then have "basename_segment (p @ [c]) = last (split_slash p) @ [c]"
      by (simp add: basename_segment_last split_slash_snoc)
    with False show ?thesis
      by (simp add: last_split_slash spec_file_name_def)
  qed
qed

text \<open>On every path, \<^verbatim>\<open>extname\<close> is the extension of the specification.\<close>

lemma extname_spec: "extname p = spec_extension p"
  by (auto simp add: extname_def spec_extension_def Let_def basename_segment_spec)

text \<open>On every path, line 50 computes the content type of the specification.\<close>

lemma mimeMap_lookup_spec:
  "(case map_of mimeMap (extname p) of None \<Rightarrow> ''application/octet-stream'' | Some t \<Rightarrow> t)
     = spec_content_type p"
  by (simp add: mimeMap_def spec_content_type_def Let_def extname_spec)

text \<open>Names at the edges: a dot-file, two dots in a name, a dot in a directory, no dot.\<close>

lemma extension_examples:
  "extname ''/app/dist/client/assets/.css'' = []
     \<and> spec_extension ''/app/dist/client/assets/.css'' = []"
  "extname ''/app/dist/client/assets/a.tar.gz'' = ''.gz''
     \<and> spec_extension ''/app/dist/client/assets/a.tar.gz'' = ''.gz''"
  "extname ''/app/dist/client/v1.2/readme'' = []
     \<and> spec_extension ''/app/dist/client/v1.2/readme'' = []"
  "extname ''/app/dist/client/assets/app.js/'' = ''.js''
     \<and> spec_extension ''/app/dist/client/assets/app.js/'' = ''.js''"
  by (simp_all add: extname_def basename_segment_def spec_extension_def spec_file_name_def)

lemma content_type_examples:
  "spec_content_type ''/app/dist/client/assets/app.js'' = ''application/javascript''"
  "spec_content_type ''/app/dist/client/assets/APP.JS'' = ''application/octet-stream''"
  "spec_content_type ''/app/dist/client/assets/.css'' = ''application/octet-stream''"
  "spec_content_type ''/app/dist/client/logo192.png'' = ''image/png''"
  by (simp_all add: spec_content_type_def spec_extension_def spec_file_name_def)

section \<open>The dispatcher: a static hit\<close>

text \<open>
  Claim C4, as the code has it. When the resolver matches the request path to a regular
  file and the read of that file runs to its end without an error, the response has status
  200, the Content-Type that the specification's table gives for the extension of the
  file's name, compared as spelled (\<^verbatim>\<open>application/octet-stream\<close> for an extension the
  table does not have and for a name without extension), the Cache-Control
  \<^verbatim>\<open>public, max-age=31536000, immutable\<close>, and as its body exactly the bytes the read
  delivered; nothing is logged and the handler is not called.
\<close>

theorem static_hit_is_served:
  assumes "request_url rt req = Returns url"
    and "fst (resolveStatic (clientDir (cwd rt)) (pathname url) fs) = Returns (Some f)"
    and "stream_of fs f = (contents, None)"
  shows "dispatch rt fs req =
           \<lparr>statusCode = 200,
            headers =
              [(''content-type'', spec_content_type f),
               (''cache-control'', ''public, max-age=31536000, immutable'')],
            headersSent = True, written = contents, endCalls = 1, errorLog = [],
            handlerCalls = [], uncaught = []\<rparr>"
proof -
  have "dispatch rt fs req = serve_static fs f fresh_exchange"
    by (simp add: dispatch_def try_block_static [OF assms(1,2)])
  then show ?thesis
    by (simp add: serve_static_complete [OF assms(3)] mimeMap_lookup_spec)
qed

theorem static_hit_is_served_witness:
  "request_url example_runtime (example_get ''/assets/app.js'')
     = Returns \<lparr>pathname = ''/assets/app.js'', href = ''http://example.org/assets/app.js''\<rparr>
   \<and> fst (resolveStatic (clientDir (cwd example_runtime)) ''/assets/app.js'' example_fs)
     = Returns (Some ''/app/dist/client/assets/app.js'')
   \<and> stream_of example_fs ''/app/dist/client/assets/app.js'' = (''console.log(1)'', None)
   \<and> dispatch example_runtime example_fs (example_get ''/assets/app.js'') =
       \<lparr>statusCode = 200,
        headers = [(''content-type'', ''application/javascript''),
                   (''cache-control'', ''public, max-age=31536000, immutable'')],
        headersSent = True, written = ''console.log(1)'', endCalls = 1, errorLog = [],
        handlerCalls = [], uncaught = []\<rparr>"
proof -
  have u: "request_url example_runtime (example_get ''/assets/app.js'')
     = Returns \<lparr>pathname = ''/assets/app.js'', href = ''http://example.org/assets/app.js''\<rparr>"
    by (simp add: request_url_example)
  have r: "fst (resolveStatic (clientDir (cwd example_runtime))
             (pathname \<lparr>pathname = ''/assets/app.js'',
                        href = ''http://example.org/assets/app.js''\<rparr>) example_fs)
     = Returns (Some ''/app/dist/client/assets/app.js'')"
    by (simp add: resolve_example_assets)
  have s: "stream_of example_fs ''/app/dist/client/assets/app.js'' = (''console.log(1)'', None)"
    by (simp add: stream_example_files)
  from static_hit_is_served [OF u r s] u r s show ?thesis
    by (simp add: content_type_examples)
qed

text \<open>
  Against claim C4 as it is worded, which asks nothing of the read. On the filesystem
  whose files cannot be read, the resolver still matches \<^verbatim>\<open>/assets/app.js\<close> to an
  existing regular file; the read fails at open, before the head is out, and the response
  is the internal error: status 500, \<^verbatim>\<open>text/plain\<close>, the fixed text as body.
\<close>

theorem static_hit_with_failing_read_is_500:
  "fst (resolveStatic (clientDir (cwd example_runtime)) ''/assets/app.js'' unreadable_fs)
     = Returns (Some ''/app/dist/client/assets/app.js'')
   \<and> stat_of unreadable_fs ''/app/dist/client/assets/app.js'' = Returns \<lparr>isFile = True\<rparr>
   \<and> stream_of unreadable_fs ''/app/dist/client/assets/app.js''
     = ([], Some (SystemError ''EACCES''))
   \<and> dispatch example_runtime unreadable_fs (example_get ''/assets/app.js'') =
       \<lparr>statusCode = 500,
        headers = [(''content-type'', ''text/plain''),
                   (''cache-control'', ''public, max-age=31536000, immutable'')],
        headersSent = True, written = ''Internal Server Error'', endCalls = 1,
        errorLog = [SystemError ''EACCES''], handlerCalls = [], uncaught = []\<rparr>"
proof -
  have st: "stat_of unreadable_fs ''/app/dist/client/assets/app.js'' = Returns \<lparr>isFile = True\<rparr>"
    by (simp add: unreadable_fs_def stat_example_files)
  have sm: "stream_of unreadable_fs ''/app/dist/client/assets/app.js''
              = ([], Some (SystemError ''EACCES''))"
    by (simp add: unreadable_fs_def)
  have "startsWith ''/assets/app.js'' ''/assets/''" by (simp add: startsWith_def)
  from resolveStatic_assets_hit [OF this, of unreadable_fs "''/app/dist/client''" "\<lparr>isFile = True\<rparr>"]
  have r: "resolveStatic (clientDir (cwd example_runtime)) ''/assets/app.js'' unreadable_fs
             = (Returns (Some ''/app/dist/client/assets/app.js''), unreadable_fs)"
    by (simp add: cwd_example clientDir_app fsPath_app_js st)
  have "dispatch example_runtime unreadable_fs (example_get ''/assets/app.js'')
          = serve_static unreadable_fs ''/app/dist/client/assets/app.js'' fresh_exchange"
    by (simp add: dispatch_def try_block_static [OF request_url_example] r)
  also have "\<dots> =
       \<lparr>statusCode = 500,
        headers = [(''content-type'', ''text/plain''),
                   (''cache-control'', ''public, max-age=31536000, immutable'')],
        headersSent = True, written = ''Internal Server Error'', endCalls = 1,
        errorLog = [SystemError ''EACCES''], handlerCalls = [], uncaught = []\<rparr>"
    by (simp add: serve_static_def Let_def static_head pipe_stream_def sm write_chunk_def
        handleError_before_head)
  finally show ?thesis using r st sm by simp
qed

text \<open>The lookup is case-sensitive: \<^verbatim>\<open>.JS\<close> is no key of the table.\<close>

lemma upper_case_extension_is_octet_stream:
  "headers (dispatch example_runtime example_fs (example_get ''/assets/APP.JS''))
     = [(''content-type'', ''application/octet-stream''),
        (''cache-control'', ''public, max-age=31536000, immutable'')]"
proof -
  have "dispatch example_runtime example_fs (example_get ''/assets/APP.JS'')
          = serve_static example_fs ''/app/dist/client/assets/APP.JS'' fresh_exchange"
    by (simp add: dispatch_def try_block_static [OF request_url_example] resolve_example_assets)
  then show ?thesis
    by (simp add: serve_static_complete [OF stream_example_files(2)] extname_examples
        mimeMap_examples)
qed

section \<open>The dispatcher: a read that fails after the head was sent\<close>

text \<open>
  Claim C8, as the code has it. When the read of a matched file fails after it has
  delivered some bytes, the head is out: the status stays 200 and the headers stay those of
  the static branch, the error is logged once, and \<^verbatim>\<open>res.end\<close> is called once with the
  fixed text, so the body is the delivered bytes followed by \<^verbatim>\<open>Internal Server Error\<close>.
\<close>

theorem midstream_failure_keeps_head_and_appends_text:
  assumes "request_url rt req = Returns url"
    and "fst (resolveStatic (clientDir (cwd rt)) (pathname url) fs) = Returns (Some f)"
    and "stream_of fs f = (delivered, Some err)"
    and "delivered \<noteq> []"
  shows "dispatch rt fs req =
           \<lparr>statusCode = 200,
            headers =
              [(''content-type'',
                (case map_of mimeMap (extname f) of
                   None \<Rightarrow> ''application/octet-stream'' | Some t \<Rightarrow> t)),
               (''cache-control'', ''public, max-age=31536000, immutable'')],
            headersSent = True, written = delivered @ ''Internal Server Error'', endCalls = 1,
            errorLog = [err], handlerCalls = [], uncaught = []\<rparr>"
proof -
  have "dispatch rt fs req = serve_static fs f fresh_exchange"
    by (simp add: dispatch_def try_block_static [OF assms(1,2)])
  then show ?thesis
    by (simp add: serve_static_midstream [OF assms(3,4)])
qed

theorem midstream_failure_keeps_head_and_appends_text_witness:
  "request_url example_runtime (example_get ''/assets/style.css'')
     = Returns \<lparr>pathname = ''/assets/style.css'',
                href = ''http://example.org/assets/style.css''\<rparr>
   \<and> fst (resolveStatic (clientDir (cwd example_runtime)) ''/assets/style.css'' example_fs)
     = Returns (Some ''/app/dist/client/assets/style.css'')
   \<and> stream_of example_fs ''/app/dist/client/assets/style.css''
     = (''body{'', Some (SystemError ''EIO''))
   \<and> ''body{'' \<noteq> []
   \<and> dispatch example_runtime example_fs (example_get ''/assets/style.css'') =
       \<lparr>statusCode = 200,
        headers = [(''content-type'', ''text/css''),
                   (''cache-control'', ''public, max-age=31536000, immutable'')],
        headersSent = True, written = ''body{Internal Server Error'', endCalls = 1,
        errorLog = [SystemError ''EIO''], handlerCalls = [], uncaught = []\<rparr>"
proof -
  have u: "request_url example_runtime (example_get ''/assets/style.css'')
     = Returns \<lparr>pathname = ''/assets/style.css'',
                href = ''http://example.org/assets/style.css''\<rparr>"
    by (simp add: request_url_example)
  have r: "fst (resolveStatic (clientDir (cwd example_runtime))
             (pathname \<lparr>pathname = ''/assets/style.css'',
                        href = ''http://example.org/assets/style.css''\<rparr>) example_fs)
     = Returns (Some ''/app/dist/client/assets/style.css'')"
    by (simp add: resolve_example_assets)
  have s: "stream_of example_fs ''/app/dist/client/assets/style.css''
             = (''body{'', Some (SystemError ''EIO''))"
    by (simp add: stream_example_files)
  have n: "''body{'' \<noteq> []" by simp
  from midstream_failure_keeps_head_and_appends_text [OF u r s n] u r s show ?thesis
    by (simp add: extname_examples mimeMap_examples)
qed

text \<open>
  Against claim C8 as it is worded: on the example the read of \<^verbatim>\<open>style.css\<close> breaks after
  the five bytes \<^verbatim>\<open>body{\<close>, the head is out by then, and the body that reaches the client
  is not those five bytes alone: the fixed error text follows them.
\<close>

theorem midstream_failure_writes_error_text:
  "stream_of example_fs ''/app/dist/client/assets/style.css''
     = (''body{'', Some (SystemError ''EIO''))
   \<and> headersSent (write_chunk ''body{'' fresh_exchange)
   \<and> statusCode (dispatch example_runtime example_fs (example_get ''/assets/style.css'')) = 200
   \<and> written (dispatch example_runtime example_fs (example_get ''/assets/style.css''))
       = ''body{'' @ ''Internal Server Error''
   \<and> written (dispatch example_runtime example_fs (example_get ''/assets/style.css''))
       \<noteq> ''body{''"
proof -
  have "dispatch example_runtime example_fs (example_get ''/assets/style.css'')
          = serve_static example_fs ''/app/dist/client/assets/style.css'' fresh_exchange"
    by (simp add: dispatch_def try_block_static [OF request_url_example] resolve_example_assets)
  then have "written (dispatch example_runtime example_fs (example_get ''/assets/style.css''))
               = ''body{'' @ ''Internal Server Error''"
    and "statusCode (dispatch example_runtime example_fs (example_get ''/assets/style.css'')) = 200"
    by (simp_all add: serve_static_midstream [OF stream_example_files(3)])
  moreover have "headersSent (write_chunk ''body{'' fresh_exchange)"
    by (simp add: write_chunk_def fresh_exchange_def)
  ultimately show ?thesis
    by (simp add: stream_example_files)
qed

section \<open>The dispatcher: a static miss\<close>

lemma dispatch_miss:
  assumes "request_url rt req = Returns url"
    and "fst (resolveStatic (clientDir (cwd rt)) (pathname url) fs) = Returns None"
  shows "dispatch rt fs req =
           handleError
             (case request_rejected rt (request_init req url) of
                None \<Rightarrow> ReferenceError ''handler'' | Some e \<Rightarrow> e)
             fresh_exchange"
  by (simp add: dispatch_def try_block_miss [OF assms] delegate_fails)

text \<open>
  Claim C3. For every request whose path the resolver does not match, the response is the
  internal-error response (status 500, Content-Type \<^verbatim>\<open>text/plain\<close>, body
  \<^verbatim>\<open>Internal Server Error\<close>, ended once), one error is logged, and the configured handler
  is never called. The logged error is the \<^verbatim>\<open>ReferenceError\<close> for the unbound identifier
  \<^verbatim>\<open>handler\<close>, unless the \<^verbatim>\<open>Request\<close> constructor has thrown before line 65 is reached.
\<close>

theorem delegation_ends_in_internal_error:
  assumes "request_url rt req = Returns url"
    and "fst (resolveStatic (clientDir (cwd rt)) (pathname url) fs) = Returns None"
  shows "dispatch rt fs req =
           \<lparr>statusCode = 500, headers = [(''content-type'', ''text/plain'')],
            headersSent = True, written = ''Internal Server Error'', endCalls = 1,
            errorLog = [case request_rejected rt (request_init req url) of
                          None \<Rightarrow> ReferenceError ''handler'' | Some e \<Rightarrow> e],
            handlerCalls = [], uncaught = []\<rparr>"
  by (simp add: dispatch_miss [OF assms] handleError_fresh)

theorem delegation_ends_in_internal_error_witness:
  "request_url example_runtime (example_get ''/api/anything'')
     = Returns \<lparr>pathname = ''/api/anything'', href = ''http://example.org/api/anything''\<rparr>
   \<and> fst (resolveStatic (clientDir (cwd example_runtime)) ''/api/anything'' example_fs)
     = Returns None
   \<and> dispatch example_runtime example_fs (example_get ''/api/anything'') =
       \<lparr>statusCode = 500, headers = [(''content-type'', ''text/plain'')],
        headersSent = True, written = ''Internal Server Error'', endCalls = 1,
        errorLog = [ReferenceError ''handler''], handlerCalls = [], uncaught = []\<rparr>"
proof -
  have u: "request_url example_runtime (example_get ''/api/anything'')
     = Returns \<lparr>pathname = ''/api/anything'', href = ''http://example.org/api/anything''\<rparr>"
    by (simp add: request_url_example)
  have r: "fst (resolveStatic (clientDir (cwd example_runtime))
             (pathname \<lparr>pathname = ''/api/anything'',
                        href = ''http://example.org/api/anything''\<rparr>) example_fs)
     = Returns None"
    by (simp add: resolve_example_api)
  from delegation_ends_in_internal_error [OF u r] u r show ?thesis
    by (simp add: example_runtime_accepts)
qed

text \<open>
  Claim C7. When the path is not matched, the \<^verbatim>\<open>Request\<close> is built, and the call of line
  65 throws an error, the dispatcher answers once with status 500 and the body
  \<^verbatim>\<open>Internal Server Error\<close>, and logs that error and nothing else.
\<close>

theorem failed_handler_call_gives_one_500:
  assumes "request_url rt req = Returns url"
    and "fst (resolveStatic (clientDir (cwd rt)) (pathname url) fs) = Returns None"
    and "new_Request rt (request_init req url) = Returns request"
    and "fst (call_handler rt request fresh_exchange) = Throws e"
  shows "statusCode (dispatch rt fs req) = 500
         \<and> written (dispatch rt fs req) = ''Internal Server Error''
         \<and> endCalls (dispatch rt fs req) = 1
         \<and> errorLog (dispatch rt fs req) = [e]"
proof -
  from assms(3) have "request_rejected rt (request_init req url) = None"
    by (simp add: new_Request_def split: option.splits)
  moreover from assms(4) have "e = ReferenceError ''handler''"
    by (simp add: call_handler_throws)
  ultimately have "dispatch rt fs req = handleError e fresh_exchange"
    by (simp add: dispatch_miss [OF assms(1,2)])
  then show ?thesis
    by (simp add: handleError_fresh)
qed

theorem failed_handler_call_gives_one_500_witness:
  "request_url example_runtime (example_get ''/api/anything'')
     = Returns \<lparr>pathname = ''/api/anything'', href = ''http://example.org/api/anything''\<rparr>
   \<and> fst (resolveStatic (clientDir (cwd example_runtime)) ''/api/anything'' example_fs)
     = Returns None
   \<and> new_Request example_runtime
       (request_init (example_get ''/api/anything'')
          \<lparr>pathname = ''/api/anything'', href = ''http://example.org/api/anything''\<rparr>)
     = Returns \<lparr>rq_url = ''http://example.org/api/anything'', rq_method = ''GET'',
                rq_headers = [(''host'', ''example.org'')], rq_body = None\<rparr>
   \<and> fst (call_handler example_runtime
            \<lparr>rq_url = ''http://example.org/api/anything'', rq_method = ''GET'',
             rq_headers = [(''host'', ''example.org'')], rq_body = None\<rparr> fresh_exchange)
     = Throws (ReferenceError ''handler'')
   \<and> statusCode (dispatch example_runtime example_fs (example_get ''/api/anything'')) = 500
   \<and> written (dispatch example_runtime example_fs (example_get ''/api/anything''))
     = ''Internal Server Error''
   \<and> endCalls (dispatch example_runtime example_fs (example_get ''/api/anything'')) = 1
   \<and> errorLog (dispatch example_runtime example_fs (example_get ''/api/anything''))
     = [ReferenceError ''handler'']"
proof -
  have u: "request_url example_runtime (example_get ''/api/anything'')
     = Returns \<lparr>pathname = ''/api/anything'', href = ''http://example.org/api/anything''\<rparr>"
    by (simp add: request_url_example)
  have r: "fst (resolveStatic (clientDir (cwd example_runtime))
             (pathname \<lparr>pathname = ''/api/anything'',
                        href = ''http://example.org/api/anything''\<rparr>) example_fs)
     = Returns None"
    by (simp add: resolve_example_api)
  have n: "new_Request example_runtime
       (request_init (example_get ''/api/anything'')
          \<lparr>pathname = ''/api/anything'', href = ''http://example.org/api/anything''\<rparr>)
     = Returns \<lparr>rq_url = ''http://example.org/api/anything'', rq_method = ''GET'',
                rq_headers = [(''host'', ''example.org'')], rq_body = None\<rparr>"
    by (simp add: new_Request_def request_init_def example_runtime_def example_get_def)
  have c: "fst (call_handler example_runtime
            \<lparr>rq_url = ''http://example.org/api/anything'', rq_method = ''GET'',
             rq_headers = [(''host'', ''example.org'')], rq_body = None\<rparr> fresh_exchange)
     = Throws (ReferenceError ''handler'')"
    by (simp add: call_handler_def identifier_bound_def scope_at_delegation_def)
  from failed_handler_call_gives_one_500 [OF u r n c] u r n c show ?thesis
    by simp
qed

text \<open>
  Claim C2 at the request \<^verbatim>\<open>GET /api/anything\<close>. The path is not matched and the
  configured handler would answer this request with a 404; the dispatcher never calls it
  and answers 500 with the fixed text.
\<close>

theorem api_request_never_reaches_handler:
  "fst (resolveStatic (clientDir (cwd example_runtime)) ''/api/anything'' example_fs)
     = Returns None
   \<and> handlerFetch example_runtime
        \<lparr>rq_url = ''http://example.org/api/anything'', rq_method = ''GET'',
         rq_headers = [(''host'', ''example.org'')], rq_body = None\<rparr>
     = Returns \<lparr>resp_status = 404, resp_headers = [(''content-type'', ''text/html'')],
                resp_body = Some (''not found'', None)\<rparr>
   \<and> handlerCalls (dispatch example_runtime example_fs (example_get ''/api/anything'')) = []
   \<and> statusCode (dispatch example_runtime example_fs (example_get ''/api/anything'')) = 500
   \<and> written (dispatch example_runtime example_fs (example_get ''/api/anything''))
     = ''Internal Server Error''"
proof -
  have r: "fst (resolveStatic (clientDir (cwd example_runtime))
             (pathname \<lparr>pathname = ''/api/anything'',
                        href = ''http://example.org'' @ ''/api/anything''\<rparr>) example_fs)
     = Returns None"
    by (simp add: resolve_example_api)
  have "dispatch example_runtime example_fs (example_get ''/api/anything'')
          = handleError (ReferenceError ''handler'') fresh_exchange"
    by (simp add: dispatch_miss [OF request_url_example r] example_runtime_accepts)
  then show ?thesis
    by (simp add: handleError_fresh resolve_example_api example_handler_404)
qed

text \<open>
  What lines 66 to 74 do with that 404 once they are given it: status, headers and body go
  out as the handler returned them. Line 65 never hands them a response.
\<close>

lemma forward_response_example:
  "forward_response
     \<lparr>resp_status = 404, resp_headers = [(''content-type'', ''text/html'')],
      resp_body = Some (''not found'', None)\<rparr> fresh_exchange
   = \<lparr>statusCode = 404, headers = [(''content-type'', ''text/html'')], headersSent = True,
      written = ''not found'', endCalls = 1, errorLog = [], handlerCalls = [],
      uncaught = []\<rparr>"
  by (simp add: forward_response_def setHeader_def toLowerCase_def lower_char_def
      pipe_stream_def write_chunk_def end_response_def fresh_exchange_def)

end
